theory Spec2Isabelle
  imports Main "HOL-Library.Word"
begin

unbundle bit_operations_syntax

section \<open>Common data of the runtime\<close>

text \<open>
  The C++ sources use \<^verbatim>\<open>size_t\<close> and pointers of a 64-bit platform: both are
  64-bit words, so \<open>+\<close>, \<open>-\<close> and \<open>*\<close> wrap around as the machine's do.
  An \<^verbatim>\<open>assert\<close> is a branch of the model: it aborts in a debug build and is
  compiled out when \<^verbatim>\<open>NDEBUG\<close> is defined. Every modelled function that contains
  an assertion takes the build flag \<open>ndebug\<close> first.
\<close>

type_synonym size_t = "64 word"
type_synonym address = "64 word"
type_synonym WriteID = "64 word"

datatype error = AssertionFailed | UndefinedBehaviour | FatalError

definition assert_ok :: "bool \<Rightarrow> bool \<Rightarrow> bool" where
  "assert_ok ndebug c = (ndebug \<or> c)"

text \<open>
  Modelled from the spec: \<^verbatim>\<open>DataAccessRegion\<close> is declared in a header that is not
  among the sources; the spec gives it as the memory region \<open>[start, start+size)\<close>.
  \<^verbatim>\<open>getSize()\<close> is the field \<open>regionLength\<close>, and two regions are equal when
  they have the same start and the same size.
\<close>

record DataAccessRegion =
  startAddress :: address
  regionLength :: size_t

definition getEndAddress :: "DataAccessRegion \<Rightarrow> address" where
  "getEndAddress r = startAddress r + regionLength r"

definition region_eq :: "DataAccessRegion \<Rightarrow> DataAccessRegion \<Rightarrow> bool" where
  "region_eq a b = (startAddress a = startAddress b \<and> regionLength a = regionLength b)"

datatype nanos6_device_t =
  nanos6_host_device | nanos6_cuda_device | nanos6_openacc_device
  | nanos6_opencl_device | nanos6_cluster_device | nanos6_fpga_device

text \<open>A memory place is read through \<^verbatim>\<open>getType()\<close> and \<^verbatim>\<open>getIndex()\<close> only.\<close>

record MemoryPlace =
  mpType :: nanos6_device_t
  mpIndex :: int

text \<open>A \<^verbatim>\<open>Task *\<close> is the address of the task; \<open>None\<close> is \<^verbatim>\<open>nullptr\<close>.\<close>

type_synonym TaskPtr = address

record SatisfiabilityInfo =
  si_region :: DataAccessRegion
  si_src :: int
  si_readSat :: bool
  si_writeSat :: bool
  si_writeID :: WriteID
  si_namespacePredecessor :: "TaskPtr option"

section \<open>CPUDependencyData::TaskAndRegion\<close>

record TaskAndRegion =
  tr_task :: TaskPtr
  tr_region :: DataAccessRegion

definition TaskAndRegion_eq :: "TaskAndRegion \<Rightarrow> TaskAndRegion \<Rightarrow> bool" where
  "TaskAndRegion_eq a other =
     (tr_task a = tr_task other \<and> region_eq (tr_region a) (tr_region other))"

definition TaskAndRegion_ne :: "TaskAndRegion \<Rightarrow> TaskAndRegion \<Rightarrow> bool" where
  "TaskAndRegion_ne a other =
     (tr_task a = tr_task other \<and> region_eq (tr_region a) (tr_region other))"

section \<open>ExecutionWorkflow::ClusterDataLinkStep\<close>

text \<open>
  The successors of a step are told apart by \<^verbatim>\<open>dynamic_cast\<close> only: a successor is
  the cluster execution step or some other step.
\<close>

datatype step_kind = ClusterExecutionStepKind | OtherStepKind

record ClusterDataLinkStep =
  dl_sourceMemoryPlace :: "MemoryPlace option"
  dl_targetMemoryPlace :: "MemoryPlace option"
  dl_region :: DataAccessRegion
  dl_task :: TaskPtr
  dl_read :: bool
  dl_write :: bool
  dl_namespacePredecessor :: "TaskPtr option"
  dl_writeID :: WriteID
  dl_started :: bool
  dl_bytesToLink :: size_t
  dl_successors :: "step_kind list"

text \<open>
  The counter \<^verbatim>\<open>_bytesToLink\<close> is a member of the base class \<^verbatim>\<open>DataLinkStep\<close>, whose
  header is not among the sources; it has the type of the \<^verbatim>\<open>size_t\<close> amounts that are
  subtracted from it.

  What the two methods change outside the step's own fields: whether
  \<^verbatim>\<open>delete this\<close> has run, the satisfiability messages handed to
  \<^verbatim>\<open>TaskOffloading::sendSatisfiability\<close> (oldest first), the \<^verbatim>\<open>_satInfo\<close> vector of
  the successor execution step, and how often \<^verbatim>\<open>releaseSuccessors\<close> has run.
  Log messages are not modelled.
\<close>

record LinkWorld =
  lw_step :: ClusterDataLinkStep
  lw_deleted :: bool
  lw_sent :: "SatisfiabilityInfo list"
  lw_execSatInfo :: "SatisfiabilityInfo list"
  lw_released :: nat

definition linkedBytes :: "DataAccessRegion \<Rightarrow> bool \<Rightarrow> bool \<Rightarrow> size_t" where
  "linkedBytes region rd wr =
     (if rd \<and> wr then regionLength region * 2 else regionLength region)"

text \<open>
  \<^verbatim>\<open>linkRegion\<close>: \<open>cur\<close> is \<^verbatim>\<open>ClusterManager::getCurrentMemoryNode()\<close>. The flag
  \<^verbatim>\<open>deleteStep\<close> is computed as in the source; the statement it guards,
  \<^verbatim>\<open>delete this\<close>, is commented out there, so the branch changes nothing.
\<close>

definition linkRegion_locationIndex ::
  "bool \<Rightarrow> MemoryPlace \<Rightarrow> MemoryPlace option \<Rightarrow> bool \<Rightarrow> bool \<Rightarrow> error + int" where
  "linkRegion_locationIndex ndebug cur location rd wr =
     (case location of
        None \<Rightarrow>
          if \<not> assert_ok ndebug wr then Inl AssertionFailed
          else if \<not> assert_ok ndebug (\<not> rd) then Inl AssertionFailed
          else Inr (- 1)
      | Some loc \<Rightarrow>
          Inr (mpIndex (if mpType loc \<noteq> nanos6_cluster_device then cur else loc)))"

definition linkRegion ::
  "bool \<Rightarrow> MemoryPlace \<Rightarrow> LinkWorld \<Rightarrow> DataAccessRegion \<Rightarrow> MemoryPlace option \<Rightarrow>
     WriteID \<Rightarrow> bool \<Rightarrow> bool \<Rightarrow> error + LinkWorld" where
  "linkRegion ndebug cur w region location writeID rd wr =
     (if lw_deleted w then Inl UndefinedBehaviour
      else if \<not> assert_ok ndebug (dl_targetMemoryPlace (lw_step w) \<noteq> None)
        then Inl AssertionFailed
      else
        case linkRegion_locationIndex ndebug cur location rd wr of
          Inl e \<Rightarrow> Inl e
        | Inr locationIndex \<Rightarrow>
            let satInfo = \<lparr> si_region = region, si_src = locationIndex, si_readSat = rd,
                  si_writeSat = wr, si_writeID = writeID, si_namespacePredecessor = None \<rparr>;
                st = lw_step w;
                st' = st \<lparr> dl_bytesToLink := dl_bytesToLink st - linkedBytes region rd wr \<rparr>;
                deleteStep = (dl_started st' \<and> dl_bytesToLink st' = 0);
                w' = w \<lparr> lw_step := st', lw_sent := lw_sent w @ [satInfo] \<rparr>
            in if deleteStep then Inr w' else Inr w')"

text \<open>
  \<^verbatim>\<open>start\<close>: reading \<^verbatim>\<open>_sourceMemoryPlace\<close> when it is null, indexing an empty
  successor vector and calling through a failed \<^verbatim>\<open>dynamic_cast\<close> are undefined
  behaviour in a build without assertions.
\<close>

definition start_location :: "bool \<Rightarrow> ClusterDataLinkStep \<Rightarrow> error + int" where
  "start_location ndebug st =
     (if dl_read st \<or> dl_write st then
        (if \<not> assert_ok ndebug (dl_sourceMemoryPlace st \<noteq> None) then Inl AssertionFailed
         else case dl_sourceMemoryPlace st of
                None \<Rightarrow> Inl UndefinedBehaviour
              | Some src \<Rightarrow> Inr (mpIndex src))
      else Inr (- 1))"

definition start_execStep :: "bool \<Rightarrow> ClusterDataLinkStep \<Rightarrow> error + unit" where
  "start_execStep ndebug st =
     (if \<not> assert_ok ndebug (length (dl_successors st) = 1) then Inl AssertionFailed
      else case dl_successors st of
             [] \<Rightarrow> Inl UndefinedBehaviour
           | k # _ \<Rightarrow>
               if \<not> assert_ok ndebug (k = ClusterExecutionStepKind) then Inl AssertionFailed
               else if k \<noteq> ClusterExecutionStepKind then Inl UndefinedBehaviour
               else Inr ())"

definition start :: "bool \<Rightarrow> LinkWorld \<Rightarrow> error + LinkWorld" where
  "start ndebug w =
     (if lw_deleted w then Inl UndefinedBehaviour
      else if \<not> assert_ok ndebug (dl_targetMemoryPlace (lw_step w) \<noteq> None)
        then Inl AssertionFailed
      else
        case start_location ndebug (lw_step w) of
          Inl e \<Rightarrow> Inl e
        | Inr location \<Rightarrow>
            (case start_execStep ndebug (lw_step w) of
               Inl e \<Rightarrow> Inl e
             | Inr _ \<Rightarrow>
                 let st = lw_step w;
                     link = \<lparr> si_region = dl_region st, si_src = location,
                       si_readSat = dl_read st, si_writeSat = dl_write st,
                       si_writeID = dl_writeID st,
                       si_namespacePredecessor = dl_namespacePredecessor st \<rparr>;
                     w1 = w \<lparr> lw_execSatInfo := lw_execSatInfo w @ [link] \<rparr>;
                     deleteStep = (dl_read st \<and> dl_write st);
                     st' = (if deleteStep then st
                            else st \<lparr> dl_bytesToLink :=
                                         dl_bytesToLink st - regionLength (dl_region st),
                                       dl_started := True \<rparr>);
                     w2 = w1 \<lparr> lw_step := st', lw_released := lw_released w1 + 1 \<rparr>
                 in if deleteStep then Inr (w2 \<lparr> lw_deleted := True \<rparr>) else Inr w2))"

text \<open>What a caller can observe of a call's outcome: \<^verbatim>\<open>_started\<close>, \<^verbatim>\<open>_bytesToLink\<close>
  and whether the step has been deleted; \<open>None\<close> when the call did not return.\<close>

definition link_status :: "error + LinkWorld \<Rightarrow> (bool \<times> size_t \<times> bool) option" where
  "link_status r =
     (case r of
        Inl e \<Rightarrow> None
      | Inr w \<Rightarrow> Some (dl_started (lw_step w), dl_bytesToLink (lw_step w), lw_deleted w))"

text \<open>
  A step for a region of 8 bytes on node 0 that is read satisfied, but not write
  satisfied, when the task is offloaded to node 1. Its byte count is twice the region's
  size, for the read and the write satisfiability that are to be linked.
\<close>

definition ex_node0 :: MemoryPlace where
  "ex_node0 = \<lparr> mpType = nanos6_cluster_device, mpIndex = 0 \<rparr>"

definition ex_node1 :: MemoryPlace where
  "ex_node1 = \<lparr> mpType = nanos6_cluster_device, mpIndex = 1 \<rparr>"

definition ex_region :: DataAccessRegion where
  "ex_region = \<lparr> startAddress = 4096, regionLength = 8 \<rparr>"

definition ex_step :: ClusterDataLinkStep where
  "ex_step =
     \<lparr> dl_sourceMemoryPlace = Some ex_node0, dl_targetMemoryPlace = Some ex_node1,
       dl_region = ex_region, dl_task = 1, dl_read = True, dl_write = False,
       dl_namespacePredecessor = None, dl_writeID = 7, dl_started = False,
       dl_bytesToLink = 16, dl_successors = [ClusterExecutionStepKind] \<rparr>"

definition ex_world :: LinkWorld where
  "ex_world =
     \<lparr> lw_step = ex_step, lw_deleted = False, lw_sent = [], lw_execSatInfo = [],
       lw_released = 0 \<rparr>"

definition ex_world_started :: LinkWorld where
  "ex_world_started =
     \<lparr> lw_step = ex_step \<lparr> dl_bytesToLink := 8, dl_started := True \<rparr>,
       lw_deleted = False, lw_sent = [],
       lw_execSatInfo = [\<lparr> si_region = ex_region, si_src = 0, si_readSat = True,
          si_writeSat = False, si_writeID = 7, si_namespacePredecessor = None \<rparr>],
       lw_released = 1 \<rparr>"

section \<open>ExecutionWorkflow::ClusterDataCopyStep\<close>

text \<open>
  Modelled from the spec: \<^verbatim>\<open>fullyContainedIn\<close> belongs to the region class, which is
  not among the sources: a region is fully contained in another when its bytes
  \<open>[start, start+size)\<close> all lie in the other's.
\<close>

definition fullyContainedIn :: "DataAccessRegion \<Rightarrow> DataAccessRegion \<Rightarrow> bool" where
  "fullyContainedIn r other =
     (startAddress other \<le> startAddress r \<and> getEndAddress r \<le> getEndAddress other)"

text \<open>
  The completion callback that \<^verbatim>\<open>requiresDataFetch\<close> attaches to a pending transfer:
  when it runs it updates the location of the task's access (task, region, target,
  taskwait flag), releases the successors of the step and deletes the step.
\<close>

type_synonym location_update = "TaskPtr \<times> DataAccessRegion \<times> MemoryPlace \<times> bool"

datatype completion_callback = CopyStepCompleted location_update

record DataTransfer =
  dt_region :: DataAccessRegion
  dt_target :: MemoryPlace
  dt_callbacks :: "completion_callback list"

text \<open>
  The memory places of a copy step are dereferenced without a check, so they are never
  null; a pointer to a memory place is compared as the place it points to.
\<close>

record ClusterDataCopyStep =
  dc_sourceMemoryPlace :: MemoryPlace
  dc_targetMemoryPlace :: MemoryPlace
  dc_fullRegion :: DataAccessRegion
  dc_task :: TaskPtr
  dc_writeID :: WriteID
  dc_isTaskwait :: bool
  dc_isWeak :: bool
  dc_needsTransfer :: bool

record CopyWorld =
  cw_step :: ClusterDataCopyStep
  cw_deleted :: bool
  cw_released :: nat
  cw_locationUpdates :: "location_update list"
  cw_pending :: "DataTransfer list"

definition copy_update :: "ClusterDataCopyStep \<Rightarrow> location_update" where
  "copy_update st =
     (dc_task st, dc_fullRegion st, dc_targetMemoryPlace st, dc_isTaskwait st)"

text \<open>
  \<^verbatim>\<open>PendingQueue<DataTransfer>::checkPendingQueue\<close> with the lambda of
  \<^verbatim>\<open>requiresDataFetch\<close>: the lambda is called on the pending transfers in turn, stops at
  the first one for which it returns true, and that is also the result.
\<close>

fun checkPendingQueue ::
  "bool \<Rightarrow> ClusterDataCopyStep \<Rightarrow> DataTransfer list \<Rightarrow> error + (bool \<times> DataTransfer list)" where
  "checkPendingQueue ndebug st [] = Inr (False, [])"
| "checkPendingQueue ndebug st (dtPending # rest) =
     (if \<not> assert_ok ndebug (mpType (dt_target dtPending) = nanos6_cluster_device)
        then Inl AssertionFailed
      else if mpIndex (dt_target dtPending) = mpIndex (dc_targetMemoryPlace st)
              \<and> fullyContainedIn (dc_fullRegion st) (dt_region dtPending)
        then Inr (True,
               dtPending \<lparr> dt_callbacks :=
                 dt_callbacks dtPending @ [CopyStepCompleted (copy_update st)] \<rparr> # rest)
      else case checkPendingQueue ndebug st rest of
             Inl e \<Rightarrow> Inl e
           | Inr (handled, rest') \<Rightarrow> Inr (handled, dtPending # rest'))"

text \<open>
  \<^verbatim>\<open>requiresDataFetch\<close>: \<open>cur\<close> is \<^verbatim>\<open>ClusterManager::getCurrentMemoryNode()\<close> and
  \<open>checkWriteIDLocal\<close> is \<^verbatim>\<open>WriteIDManager::checkWriteIDLocal\<close>, which is not among
  the sources. The caller issues the data transfer exactly when the result is true.
\<close>

definition requiresDataFetch ::
  "bool \<Rightarrow> MemoryPlace \<Rightarrow> (WriteID \<Rightarrow> DataAccessRegion \<Rightarrow> bool) \<Rightarrow> CopyWorld \<Rightarrow>
     error + (bool \<times> CopyWorld)" where
  "requiresDataFetch ndebug cur checkWriteIDLocal w =
     (let st = cw_step w in
      if cw_deleted w then Inl UndefinedBehaviour
      else if \<not> assert_ok ndebug (cur = dc_targetMemoryPlace st) then Inl AssertionFailed
      else if \<not> assert_ok ndebug (mpType (dc_sourceMemoryPlace st) = nanos6_cluster_device)
        then Inl AssertionFailed
      else if \<not> assert_ok ndebug (mpType (dc_targetMemoryPlace st) = nanos6_cluster_device)
        then Inl AssertionFailed
      else if \<not> assert_ok ndebug (dc_sourceMemoryPlace st \<noteq> dc_targetMemoryPlace st)
        then Inl AssertionFailed
      else if \<not> dc_needsTransfer st then
        (let w1 = (if \<not> dc_isTaskwait st \<and> \<not> dc_isWeak st
                   then w \<lparr> cw_locationUpdates := cw_locationUpdates w @ [copy_update st] \<rparr>
                   else w)
         in Inr (False, w1 \<lparr> cw_released := cw_released w1 + 1, cw_deleted := True \<rparr>))
      else if checkWriteIDLocal (dc_writeID st) (dc_fullRegion st) then
        Inr (False, w \<lparr> cw_released := cw_released w + 1, cw_deleted := True \<rparr>)
      else
        (case checkPendingQueue ndebug st (cw_pending w) of
           Inl e \<Rightarrow> Inl e
         | Inr (handled, pending') \<Rightarrow> Inr (handled = False, w \<lparr> cw_pending := pending' \<rparr>)))"

definition ex_copy_world :: CopyWorld where
  "ex_copy_world =
     \<lparr> cw_step = \<lparr> dc_sourceMemoryPlace = ex_node0, dc_targetMemoryPlace = ex_node1,
         dc_fullRegion = ex_region, dc_task = 1, dc_writeID = 7, dc_isTaskwait = False,
         dc_isWeak = False, dc_needsTransfer = True \<rparr>,
       cw_deleted = False, cw_released = 0, cw_locationUpdates = [],
       cw_pending = [\<lparr> dt_region = ex_region, dt_target = ex_node1, dt_callbacks = [] \<rparr>] \<rparr>"

definition ex_checkWriteIDLocal :: "WriteID \<Rightarrow> DataAccessRegion \<Rightarrow> bool" where
  "ex_checkWriteIDLocal wid r = (wid = 7 \<and> region_eq r ex_region)"

section \<open>ExecutionWorkflow::HostExecutionStep\<close>

text \<open>
  Modelled from the spec: the enumeration \<^verbatim>\<open>ReadyTaskHint\<close> is declared in a header
  that is not among the sources. The sources name the hints for no hint, for an
  unblocked task and for a busy compute place; the spec adds those for related tasks.
\<close>

datatype ReadyTaskHint =
  NO_HINT | CHILD_TASK_HINT | SIBLING_TASK_HINT | BUSY_COMPUTE_PLACE_TASK_HINT
  | UNBLOCKED_TASK_HINT

type_synonym CPUPtr = address

record WorkerThread =
  wt_computePlace :: "CPUPtr option"
  wt_task :: "TaskPtr option"

record HostTask =
  ht_ptr :: TaskPtr
  ht_hasCode :: bool

text \<open>
  What \<^verbatim>\<open>HostExecutionStep::start\<close> does, in order. Instrumentation, monitoring and
  hardware counters are not modelled. The step runs the task, \<open>HostExecutionStep_run\<close>,
  unless the current thread, its CPU or its task is null. \<open>tableSize\<close> is the size that
  \<^verbatim>\<open>generateTranslationTable\<close> reports, \<open>cpuAfter\<close> the compute place of the thread
  once the body has returned (the thread may have migrated).
\<close>

datatype host_event =
  SetExecutionStep TaskPtr
  | AddReadyTask TaskPtr "CPUPtr option" ReadyTaskHint
  | SetThread TaskPtr
  | GenerateTranslationTable TaskPtr CPUPtr
  | Body TaskPtr
  | FreeTranslationTable nat
  | CombineTaskReductions TaskPtr CPUPtr
  | ReleaseSuccessors
  | DeleteThis

definition HostExecutionStep_requeue :: "HostTask \<Rightarrow> host_event list" where
  "HostExecutionStep_requeue task =
     [SetExecutionStep (ht_ptr task),
      AddReadyTask (ht_ptr task) None BUSY_COMPUTE_PLACE_TASK_HINT]"

definition HostExecutionStep_run :: "HostTask \<Rightarrow> CPUPtr \<Rightarrow> nat \<Rightarrow> CPUPtr \<Rightarrow> host_event list" where
  "HostExecutionStep_run task cpu tableSize cpuAfter =
     (if ht_hasCode task then
        [SetThread (ht_ptr task), GenerateTranslationTable (ht_ptr task) cpu,
         Body (ht_ptr task)]
        @ (if tableSize > 0 then [FreeTranslationTable tableSize] else [])
        @ [CombineTaskReductions (ht_ptr task) cpuAfter, ReleaseSuccessors, DeleteThis]
      else
        [SetThread (ht_ptr task),
         CombineTaskReductions (ht_ptr task) cpu, ReleaseSuccessors, DeleteThis])"

definition HostExecutionStep_start ::
  "WorkerThread option \<Rightarrow> HostTask \<Rightarrow> nat \<Rightarrow> CPUPtr \<Rightarrow> host_event list" where
  "HostExecutionStep_start currentThread task tableSize cpuAfter =
     (case currentThread of
        None \<Rightarrow> HostExecutionStep_requeue task
      | Some t \<Rightarrow>
          (case wt_computePlace t of
             None \<Rightarrow> HostExecutionStep_requeue task
           | Some cpu \<Rightarrow>
               if wt_task t = None then HostExecutionStep_requeue task
               else HostExecutionStep_run task cpu tableSize cpuAfter))"

definition outside_worker_context :: "WorkerThread option \<Rightarrow> bool" where
  "outside_worker_context currentThread =
     (case currentThread of
        None \<Rightarrow> True
      | Some t \<Rightarrow> wt_computePlace t = None \<or> wt_task t = None)"

section \<open>DefaultCPUManagerImplementation::cpuBecomesIdle\<close>

text \<open>
  The idle mechanism's static data: the bitmap \<^verbatim>\<open>_idleCPUs\<close>, the count
  \<^verbatim>\<open>_numIdleCPUs\<close>, the number of CPUs \<^verbatim>\<open>_cpus.size()\<close>, and the calls made on the
  lock \<^verbatim>\<open>_idleCPUsLock\<close> and on the other components, oldest first.
\<close>

datatype idle_event =
  LockIdleCPUs | UnlockIdleCPUs | HasAvailableWork int
  | MonitoringCpuBecomesIdle int | SuspendingComputePlace int

record IdleCPUs =
  idleCPUs :: "bool list"
  numIdleCPUs :: size_t
  numCPUs :: nat
  idleTrace :: "idle_event list"

text \<open>
  \<^verbatim>\<open>cpuBecomesIdle\<close>: the CPU is given by its index (\<open>None\<close> is a null pointer).
  \<open>hasAvailableWork\<close> is \<^verbatim>\<open>Scheduler::hasAvailableWork\<close>, which is not among the
  sources. Writing a bit outside the bitmap is undefined behaviour.
\<close>

definition cpuBecomesIdle ::
  "bool \<Rightarrow> (int \<Rightarrow> bool) \<Rightarrow> IdleCPUs \<Rightarrow> int option \<Rightarrow> error + (bool \<times> IdleCPUs)" where
  "cpuBecomesIdle ndebug hasAvailableWork s cpu =
     (if \<not> assert_ok ndebug (cpu \<noteq> None) then Inl AssertionFailed
      else case cpu of
        None \<Rightarrow> Inl UndefinedBehaviour
      | Some index \<Rightarrow>
          let s1 = s \<lparr> idleTrace := idleTrace s @ [LockIdleCPUs, HasAvailableWork index] \<rparr> in
          if hasAvailableWork index then
            Inr (False, s1 \<lparr> idleTrace := idleTrace s1 @ [UnlockIdleCPUs] \<rparr>)
          else if index < 0 \<or> int (length (idleCPUs s1)) \<le> index then Inl UndefinedBehaviour
          else
            let s2 = s1 \<lparr> idleTrace := idleTrace s1 @
                           [MonitoringCpuBecomesIdle index, SuspendingComputePlace index],
                         idleCPUs := (idleCPUs s1) [nat index := True],
                         numIdleCPUs := numIdleCPUs s1 + 1 \<rparr>
            in if \<not> assert_ok ndebug (unat (numIdleCPUs s2) \<le> numCPUs s2)
               then Inl AssertionFailed
               else Inr (True, s2 \<lparr> idleTrace := idleTrace s2 @ [UnlockIdleCPUs] \<rparr>))"

definition ex_idle :: IdleCPUs where
  "ex_idle = \<lparr> idleCPUs = [False, True, False], numIdleCPUs = 1, numCPUs = 3,
               idleTrace = [] \<rparr>"

definition ex_hasAvailableWork :: "int \<Rightarrow> bool" where
  "ex_hasAvailableWork index = (index = 0)"

section \<open>MPIMessenger::checkMail\<close>

type_synonym c_int = "32 word"

record MPI_Status =
  MPI_SOURCE :: c_int
  MPI_TAG :: c_int

text \<open>
  What the MPI library and \<^verbatim>\<open>malloc\<close> answer to the calls of \<^verbatim>\<open>checkMail\<close>: the
  return codes, the flag and the status of the probe, the byte count, whether the
  allocation succeeded, and the bytes that \<^verbatim>\<open>MPI_Recv\<close> delivers.
\<close>

record 'd MPIAnswers =
  iprobe_ret :: c_int
  iprobe_flag :: c_int
  iprobe_status :: MPI_Status
  get_count_ret :: c_int
  get_count_count :: c_int
  malloc_ok :: bool
  recv_ret :: c_int
  recv_data :: 'd

datatype mpi_call =
  MPI_Iprobe | MPI_Get_count | Malloc c_int | MPI_Recv c_int c_int c_int

text \<open>
  The result of \<^verbatim>\<open>checkMail\<close>: \<^verbatim>\<open>nullptr\<close>, or the message that the factory creates
  for a type and the received bytes.
\<close>

datatype 'd mail = NoMessage | Created c_int 'd

text \<open>
  Modelled from the spec: \<^verbatim>\<open>MPIErrorHandler::handle\<close> is not among the sources; a
  transport call that returns a non-ok status is fatal. \<^verbatim>\<open>MPI_SUCCESS\<close> is 0.
\<close>

definition MPIErrorHandler_ok :: "c_int \<Rightarrow> bool" where
  "MPIErrorHandler_ok ret = (ret = 0)"

text \<open>
  \<^verbatim>\<open>checkMail\<close>: \<open>DATA_RAW\<close> is the value of the enumerator of that name, whose
  declaration is not among the sources. The result comes with the calls made, in order.
  A failed \<^verbatim>\<open>malloc\<close> ends in \<^verbatim>\<open>MPI_Abort\<close>.
\<close>

definition checkMail ::
  "bool \<Rightarrow> c_int \<Rightarrow> 'd MPIAnswers \<Rightarrow> error + ('d mail \<times> mpi_call list)" where
  "checkMail ndebug DATA_RAW a =
     (if \<not> MPIErrorHandler_ok (iprobe_ret a) then Inl FatalError
      else if iprobe_flag a = 0 then Inr (NoMessage, [MPI_Iprobe])
      else
        let status = iprobe_status a;
            type = MPI_TAG status AND 0xff
        in if type = DATA_RAW then Inr (NoMessage, [MPI_Iprobe])
           else if \<not> MPIErrorHandler_ok (get_count_ret a) then Inl FatalError
           else if \<not> malloc_ok a then Inl FatalError
           else if \<not> assert_ok ndebug (get_count_count a \<noteq> 0) then Inl AssertionFailed
           else if \<not> MPIErrorHandler_ok (recv_ret a) then Inl FatalError
           else Inr (Created type (recv_data a),
                  [MPI_Iprobe, MPI_Get_count, Malloc (get_count_count a),
                   MPI_Recv (get_count_count a) (MPI_SOURCE status) (MPI_TAG status)]))"

definition ex_answers :: "c_int \<Rightarrow> nat MPIAnswers" where
  "ex_answers tag =
     \<lparr> iprobe_ret = 0, iprobe_flag = 1,
       iprobe_status = \<lparr> MPI_SOURCE = 1, MPI_TAG = tag \<rparr>,
       get_count_ret = 0, get_count_count = 64, malloc_ok = True, recv_ret = 0,
       recv_data = 99 \<rparr>"

section \<open>nanos6_decrease_task_event_counter\<close>

text \<open>
  Modelled from the spec: the class \<^verbatim>\<open>Task\<close> is not among the sources. The spec gives a
  task a release counter and a released flag: a decrement of the counter tells whether
  it reached zero, and \<^verbatim>\<open>markAsReleased\<close> is a compare-and-swap of the flag from false
  to true that returns whether it succeeded.
\<close>

record Task =
  t_countdownToRelease :: int
  t_released :: bool

definition decreaseReleaseCount :: "Task \<Rightarrow> nat \<Rightarrow> bool \<times> Task" where
  "decreaseReleaseCount t amount =
     (let count = t_countdownToRelease t - int amount
      in (count = 0, t \<lparr> t_countdownToRelease := count \<rparr>))"

definition markAsReleased :: "Task \<Rightarrow> bool \<times> Task" where
  "markAsReleased t =
     (if t_released t then (False, t) else (True, t \<lparr> t_released := True \<rparr>))"

text \<open>
  The calls that the function makes on the dependency system and on the finalization:
  the unregistration carries the CPU and whether a local \<^verbatim>\<open>CPUDependencyData\<close> was
  used for it.
\<close>

datatype finalization_event =
  UnregisterTaskDataAccesses "CPUPtr option" bool
  | TaskFinished "CPUPtr option"
  | DisposeTask

record ThreadContext =
  tc_currentThread :: "WorkerThread option"
  tc_isLeaderThread :: bool
  tc_leaderComputePlace :: "CPUPtr option"

definition event_counter_cpu :: "bool \<Rightarrow> ThreadContext \<Rightarrow> error + CPUPtr option" where
  "event_counter_cpu ndebug ctx =
     (case tc_currentThread ctx of
        Some currentThread \<Rightarrow>
          if \<not> assert_ok ndebug (wt_computePlace currentThread \<noteq> None)
          then Inl AssertionFailed else Inr (wt_computePlace currentThread)
      | None \<Rightarrow>
          if tc_isLeaderThread ctx then
            (if \<not> assert_ok ndebug (tc_leaderComputePlace ctx \<noteq> None)
             then Inl AssertionFailed else Inr (tc_leaderComputePlace ctx))
          else Inr None)"

text \<open>
  \<^verbatim>\<open>nanos6_decrease_task_event_counter\<close>: \<open>unregisterTaskDataAccesses\<close> and
  \<open>taskFinished\<close> stand for what the two calls of those names, whose code is not among
  the sources, do to the task. The result is the task afterwards and the calls made.
\<close>

definition nanos6_decrease_task_event_counter ::
  "bool \<Rightarrow> ThreadContext \<Rightarrow> (Task \<Rightarrow> Task) \<Rightarrow> (Task \<Rightarrow> Task) \<Rightarrow> Task option \<Rightarrow> 32 word \<Rightarrow>
     error + (Task option \<times> finalization_event list)" where
  "nanos6_decrease_task_event_counter ndebug ctx unregisterTaskDataAccesses taskFinished
       event_counter decrement =
     (if \<not> assert_ok ndebug (event_counter \<noteq> None) then Inl AssertionFailed
      else if decrement = 0 then Inr (event_counter, [])
      else case event_counter of
        None \<Rightarrow> Inl UndefinedBehaviour
      | Some task \<Rightarrow>
          (let (zero, t1) = decreaseReleaseCount task (unat decrement) in
           if zero then
             (case event_counter_cpu ndebug ctx of
                Inl e \<Rightarrow> Inl e
              | Inr cpu \<Rightarrow>
                  (let t2 = unregisterTaskDataAccesses t1;
                       t3 = taskFinished t2;
                       calls = [UnregisterTaskDataAccesses cpu (cpu = None), TaskFinished cpu];
                       (released, t4) = markAsReleased t3
                   in if released then Inr (Some t4, calls @ [DisposeTask])
                      else Inr (Some t4, calls)))
           else Inr (Some t1, [])))"

definition is_unregistration :: "finalization_event \<Rightarrow> bool" where
  "is_unregistration e = (case e of UnregisterTaskDataAccesses c l \<Rightarrow> True | _ \<Rightarrow> False)"

definition ex_context :: ThreadContext where
  "ex_context =
     \<lparr> tc_currentThread = Some \<lparr> wt_computePlace = Some 5, wt_task = Some 1 \<rparr>,
       tc_isLeaderThread = False, tc_leaderComputePlace = None \<rparr>"

definition calls_of ::
  "error + (Task option \<times> finalization_event list) \<Rightarrow> finalization_event list" where
  "calls_of r = (case r of Inl e \<Rightarrow> [] | Inr (t, calls) \<Rightarrow> calls)"

definition ex_task :: Task where
  "ex_task = \<lparr> t_countdownToRelease = 2, t_released = False \<rparr>"

section \<open>ClusterLocalityScheduler::getScheduledNode\<close>

text \<open>
  Modelled from the spec: \<^verbatim>\<open>intersect\<close> belongs to the region class, which is not
  among the sources: the common bytes of two regions \<open>[start, start+size)\<close>, the empty
  region when there are none.
\<close>

definition intersect :: "DataAccessRegion \<Rightarrow> DataAccessRegion \<Rightarrow> DataAccessRegion" where
  "intersect r other =
     (let start = max (startAddress r) (startAddress other);
          end = min (getEndAddress r) (getEndAddress other)
      in if start < end then \<lparr> startAddress = start, regionLength = end - start \<rparr>
         else \<lparr> startAddress = 0, regionLength = 0 \<rparr>)"

text \<open>What the scheduler reads of a data access, and of an entry of the directory.\<close>

record DataAccess =
  da_location :: "MemoryPlace option"
  da_region :: DataAccessRegion
  da_weak :: bool

record HomeNodeEntry =
  hn_region :: DataAccessRegion
  hn_homeNode :: MemoryPlace

text \<open>
  The collaborators of \<^verbatim>\<open>getScheduledNode\<close> whose code is not among the sources:
  the cluster manager, the directory, the virtual memory management, the DSM
  (\<^verbatim>\<open>argo::\<close>), the scheduler's own \<^verbatim>\<open>getNodeIdForLocation\<close>, the constant
  \<^verbatim>\<open>nanos6_cluster_no_offload\<close>, and \<open>ftExceeds ft_bytes max_bytes\<close>, the value of
  the floating-point test \<^verbatim>\<open>ft_bytes > locality_tuning*max_bytes\<close> for the configured
  tuning.
\<close>

record SchedEnv =
  clusterSize :: nat
  getDirectoryMemoryPlace :: MemoryPlace
  isDirectoryMemoryPlace :: "MemoryPlace \<Rightarrow> bool"
  isClusterMemory :: "DataAccessRegion \<Rightarrow> bool"
  is_argo_address :: "address \<Rightarrow> bool"
  directory_find :: "DataAccessRegion \<Rightarrow> HomeNodeEntry list"
  get_block_size :: size_t
  get_homenode :: "address \<Rightarrow> int"
  getNodeIdForLocation :: "MemoryPlace \<Rightarrow> nat"
  ftExceeds :: "size_t \<Rightarrow> size_t \<Rightarrow> bool"
  nanos6_cluster_no_offload :: int

text \<open>The vector \<^verbatim>\<open>bytes\<close> and the counter \<^verbatim>\<open>ft_bytes\<close> of the function.\<close>

type_synonym touched = "size_t list \<times> size_t"

text \<open>
  \<^verbatim>\<open>bytes[nodeId] += n\<close>: the vector is indexed without a check, so an index outside
  it is undefined behaviour.
\<close>

definition add_bytes :: "touched \<Rightarrow> nat \<Rightarrow> size_t \<Rightarrow> error + touched" where
  "add_bytes acc nodeId n =
     (if nodeId < length (fst acc)
      then Inr ((fst acc) [nodeId := fst acc ! nodeId + n], snd acc)
      else Inl UndefinedBehaviour)"

text \<open>
  The loop over the DSM blocks of a region, from \<open>addr\<close> up to \<open>endAddress\<close> in steps
  of the block size. It does not end when the block size is 0, and then the function
  does not return: the result is \<open>None\<close>.
\<close>

partial_function (option) argoBlocks ::
  "SchedEnv \<Rightarrow> address \<Rightarrow> address \<Rightarrow> touched \<Rightarrow> (error + touched) option" where
  "argoBlocks env addr endAddress acc =
     (if addr < endAddress then
        (let block_size = get_block_size env;
             homenode = get_homenode env addr;
             n = (if addr + block_size < endAddress then block_size else endAddress - addr)
         in if homenode < 0
            then argoBlocks env (addr + block_size) endAddress (fst acc, snd acc + n)
            else (case add_bytes acc (nat homenode) n of
                    Inl e \<Rightarrow> Some (Inl e)
                  | Inr acc' \<Rightarrow> argoBlocks env (addr + block_size) endAddress acc'))
      else Some (Inr acc))"

declare argoBlocks.simps [code]

definition argoRegion :: "SchedEnv \<Rightarrow> DataAccessRegion \<Rightarrow> touched \<Rightarrow> (error + touched) option" where
  "argoRegion env region acc =
     argoBlocks env (startAddress region) (startAddress region + regionLength region) acc"

text \<open>The loop over the home nodes that the directory has for the region.\<close>

fun homeNodesLoop ::
  "SchedEnv \<Rightarrow> DataAccessRegion \<Rightarrow> HomeNodeEntry list \<Rightarrow> touched \<Rightarrow> (error + touched) option" where
  "homeNodesLoop env region [] acc = Some (Inr acc)"
| "homeNodesLoop env region (entry # rest) acc =
     (let subregion = intersect region (hn_region entry) in
      case (if is_argo_address env (startAddress subregion)
            then argoRegion env subregion acc
            else Some (add_bytes acc (getNodeIdForLocation env (hn_homeNode entry))
                         (regionLength subregion))) of
        None \<Rightarrow> None
      | Some (Inl e) \<Rightarrow> Some (Inl e)
      | Some (Inr acc') \<Rightarrow> homeNodesLoop env region rest acc')"

text \<open>
  The lambda that is run on each access: the result says whether to go on with the next
  access (\<^verbatim>\<open>return true\<close>) or that the task cannot be offloaded.
\<close>

definition accountAccess ::
  "bool \<Rightarrow> SchedEnv \<Rightarrow> DataAccess \<Rightarrow> touched \<Rightarrow> (error + (bool \<times> touched)) option" where
  "accountAccess ndebug env access acc =
     (if da_location access = None \<and> \<not> assert_ok ndebug (da_weak access)
        then Some (Inl AssertionFailed)
      else
        let location = (case da_location access of
                          None \<Rightarrow> getDirectoryMemoryPlace env | Some l \<Rightarrow> l);
            region = da_region access
        in if \<not> isClusterMemory env region \<and> \<not> is_argo_address env (startAddress region)
           then Some (Inr (False, acc))
           else
             case (if isDirectoryMemoryPlace env location
                     then homeNodesLoop env region (directory_find env region) acc
                   else if is_argo_address env (startAddress region)
                     then argoRegion env region acc
                   else Some (add_bytes acc (getNodeIdForLocation env location)
                                (regionLength region))) of
               None \<Rightarrow> None
             | Some (Inl e) \<Rightarrow> Some (Inl e)
             | Some (Inr acc') \<Rightarrow> Some (Inr (True, acc')))"

text \<open>
  \<^verbatim>\<open>DataAccessRegistration::processAllDataAccesses\<close> runs the lambda on the accesses
  of the task in turn and stops when it returns false. The flag of the result is
  \<^verbatim>\<open>canBeOffloaded\<close>.
\<close>

fun processAllDataAccesses ::
  "bool \<Rightarrow> SchedEnv \<Rightarrow> DataAccess list \<Rightarrow> touched \<Rightarrow> (error + (bool \<times> touched)) option" where
  "processAllDataAccesses ndebug env [] acc = Some (Inr (True, acc))"
| "processAllDataAccesses ndebug env (access # rest) acc =
     (case accountAccess ndebug env access acc of
        None \<Rightarrow> None
      | Some (Inl e) \<Rightarrow> Some (Inl e)
      | Some (Inr (False, acc')) \<Rightarrow> Some (Inr (False, acc'))
      | Some (Inr (True, acc')) \<Rightarrow> processAllDataAccesses ndebug env rest acc')"

text \<open>
  \<^verbatim>\<open>std::max_element\<close> as an index: the first of the largest elements; the loop keeps
  the index and the value of the largest element so far and replaces them only by a
  strictly larger one.
\<close>

fun max_element_from :: "size_t list \<Rightarrow> nat \<Rightarrow> nat \<Rightarrow> size_t \<Rightarrow> nat" where
  "max_element_from [] i largest v = largest"
| "max_element_from (x # xs) i largest v =
     (if v < x then max_element_from xs (Suc i) i x
      else max_element_from xs (Suc i) largest v)"

definition max_element :: "size_t list \<Rightarrow> nat" where
  "max_element xs = (case xs of [] \<Rightarrow> 0 | x # rest \<Rightarrow> max_element_from rest 1 0 x)"

text \<open>
  \<^verbatim>\<open>std::adjacent_find\<close> with \<^verbatim>\<open>std::not_equal_to\<close>: whether two neighbours that
  differ are found.
\<close>

fun adjacent_find_not_equal :: "size_t list \<Rightarrow> bool" where
  "adjacent_find_not_equal (x # y # rest) = (x \<noteq> y \<or> adjacent_find_not_equal (y # rest))"
| "adjacent_find_not_equal xs = False"

text \<open>
  The choice of the node from the counts. \<open>nextFt\<close> is the value that the call
  \<^verbatim>\<open>getNextFtNode()\<close> returns; the function is declared in the scheduler's header,
  which is not among the sources.
\<close>

definition chooseNode ::
  "bool \<Rightarrow> SchedEnv \<Rightarrow> nat \<Rightarrow> size_t list \<Rightarrow> size_t \<Rightarrow> error + int" where
  "chooseNode ndebug env nextFt bytes ft_bytes =
     (if \<not> assert_ok ndebug (bytes \<noteq> []) then Inl AssertionFailed
      else if bytes = [] then Inl UndefinedBehaviour
      else
        let max_bytes = bytes ! max_element bytes in
        if ftExceeds env ft_bytes max_bytes then Inr (int nextFt)
        else if \<not> adjacent_find_not_equal bytes then Inr (int nextFt)
        else Inr (int (max_element (take (clusterSize env) bytes))))"

definition getScheduledNode ::
  "bool \<Rightarrow> SchedEnv \<Rightarrow> nat \<Rightarrow> DataAccess list \<Rightarrow> (error + int) option" where
  "getScheduledNode ndebug env nextFt accesses =
     (case processAllDataAccesses ndebug env accesses (replicate (clusterSize env) 0, 0) of
        None \<Rightarrow> None
      | Some (Inl e) \<Rightarrow> Some (Inl e)
      | Some (Inr (canBeOffloaded, bytes, ft_bytes)) \<Rightarrow>
          if \<not> canBeOffloaded then Some (Inr (nanos6_cluster_no_offload env))
          else Some (chooseNode ndebug env nextFt bytes ft_bytes))"

text \<open>
  A cluster of three nodes. Addresses from \<open>0x100000\<close> on are DSM memory with blocks of
  4096 bytes, of which those below \<open>0x102000\<close> have node 1 as home and the others
  have not been touched yet; the addresses below are cluster memory, and the directory
  has node 0 as the home of its first \<open>0x80000\<close> bytes. The tuning parameter is 1.
\<close>

definition ex_directory :: MemoryPlace where
  "ex_directory = \<lparr> mpType = nanos6_host_device, mpIndex = - 42 \<rparr>"

definition ex_node2 :: MemoryPlace where
  "ex_node2 = \<lparr> mpType = nanos6_cluster_device, mpIndex = 2 \<rparr>"

definition ex_sched_env :: SchedEnv where
  "ex_sched_env =
     \<lparr> clusterSize = 3,
       getDirectoryMemoryPlace = ex_directory,
       isDirectoryMemoryPlace = (\<lambda>l. l = ex_directory),
       isClusterMemory = (\<lambda>r. startAddress r < 0x100000),
       is_argo_address = (\<lambda>a. 0x100000 \<le> a),
       directory_find =
         (\<lambda>r. [\<lparr> hn_region = \<lparr> startAddress = 0, regionLength = 0x80000 \<rparr>,
                  hn_homeNode = ex_node0 \<rparr>]),
       get_block_size = 4096,
       get_homenode = (\<lambda>a. if a < 0x102000 then 1 else - 1),
       getNodeIdForLocation =
         (\<lambda>l. if mpType l = nanos6_host_device then 0 else nat (mpIndex l)),
       ftExceeds = (\<lambda>ft_bytes max_bytes. max_bytes < ft_bytes),
       nanos6_cluster_no_offload = - 1 \<rparr>"

text \<open>
  A task with three accesses: three DSM blocks, two of them with home node 1; 100 bytes
  on node 2; and a weak access without location to 64 bytes that the directory has on
  node 0. Node 1 has the most bytes.
\<close>

definition ex_accesses :: "DataAccess list" where
  "ex_accesses =
     [\<lparr> da_location = Some ex_node0,
        da_region = \<lparr> startAddress = 0x100000, regionLength = 0x3000 \<rparr>, da_weak = False \<rparr>,
      \<lparr> da_location = Some ex_node2,
        da_region = \<lparr> startAddress = 0x1000, regionLength = 100 \<rparr>, da_weak = False \<rparr>,
      \<lparr> da_location = None,
        da_region = \<lparr> startAddress = 0x2000, regionLength = 64 \<rparr>, da_weak = True \<rparr>]"

text \<open>A task with 5 bytes on node 0 and 5 bytes on node 1, and none on node 2.\<close>

definition ex_tie_accesses :: "DataAccess list" where
  "ex_tie_accesses =
     [\<lparr> da_location = Some ex_node0,
        da_region = \<lparr> startAddress = 0x1000, regionLength = 5 \<rparr>, da_weak = False \<rparr>,
      \<lparr> da_location = Some ex_node1,
        da_region = \<lparr> startAddress = 0x2000, regionLength = 5 \<rparr>, da_weak = False \<rparr>]"

text \<open>A task with 5 bytes on each of the three nodes.\<close>

definition ex_equal_accesses :: "DataAccess list" where
  "ex_equal_accesses =
     ex_tie_accesses @
     [\<lparr> da_location = Some ex_node2,
        da_region = \<lparr> startAddress = 0x3000, regionLength = 5 \<rparr>, da_weak = False \<rparr>]"

text \<open>
  The spec's counts, to compare with the accounting of the function: the bytes that a
  task touches on each node, "using the directory and the DSM home-node function".
  \<open>spec_homedBytes\<close> counts, byte by byte, the bytes of a region whose home satisfies
  a condition; a region outside the DSM lies wholly on the node of its location; an
  access whose location is the directory is split along the directory's entries. The
  first-touch deficit is the number of DSM bytes whose home is negative.
\<close>

definition spec_homedBytes :: "SchedEnv \<Rightarrow> DataAccessRegion \<Rightarrow> (int \<Rightarrow> bool) \<Rightarrow> nat" where
  "spec_homedBytes env region P =
     length (filter (\<lambda>i. P (get_homenode env (startAddress region + of_nat i)))
               [0 ..< unat (regionLength region)])"

definition spec_touchedRegion ::
  "SchedEnv \<Rightarrow> DataAccessRegion \<Rightarrow> MemoryPlace \<Rightarrow> nat \<Rightarrow> nat" where
  "spec_touchedRegion env region location k =
     (if is_argo_address env (startAddress region)
      then spec_homedBytes env region (\<lambda>home. home = int k)
      else if getNodeIdForLocation env location = k then unat (regionLength region) else 0)"

definition spec_firstTouchRegion :: "SchedEnv \<Rightarrow> DataAccessRegion \<Rightarrow> nat" where
  "spec_firstTouchRegion env region =
     (if is_argo_address env (startAddress region)
      then spec_homedBytes env region (\<lambda>home. home < 0) else 0)"

definition spec_accessLocation :: "SchedEnv \<Rightarrow> DataAccess \<Rightarrow> MemoryPlace" where
  "spec_accessLocation env access =
     (case da_location access of None \<Rightarrow> getDirectoryMemoryPlace env | Some l \<Rightarrow> l)"

definition spec_touchedAccess :: "SchedEnv \<Rightarrow> DataAccess \<Rightarrow> nat \<Rightarrow> nat" where
  "spec_touchedAccess env access k =
     (if isDirectoryMemoryPlace env (spec_accessLocation env access)
      then sum_list (map (\<lambda>entry. spec_touchedRegion env
                            (intersect (da_region access) (hn_region entry)) (hn_homeNode entry) k)
                       (directory_find env (da_region access)))
      else spec_touchedRegion env (da_region access) (spec_accessLocation env access) k)"

definition spec_firstTouchAccess :: "SchedEnv \<Rightarrow> DataAccess \<Rightarrow> nat" where
  "spec_firstTouchAccess env access =
     (if isDirectoryMemoryPlace env (spec_accessLocation env access)
      then sum_list (map (\<lambda>entry. spec_firstTouchRegion env
                            (intersect (da_region access) (hn_region entry)))
                       (directory_find env (da_region access)))
      else spec_firstTouchRegion env (da_region access))"

definition spec_touchedBytes :: "SchedEnv \<Rightarrow> DataAccess list \<Rightarrow> nat \<Rightarrow> nat" where
  "spec_touchedBytes env accesses k = sum_list (map (\<lambda>a. spec_touchedAccess env a k) accesses)"

definition spec_firstTouchBytes :: "SchedEnv \<Rightarrow> DataAccess list \<Rightarrow> nat" where
  "spec_firstTouchBytes env accesses = sum_list (map (spec_firstTouchAccess env) accesses)"

text \<open>
  A task with three accesses: 4096 bytes of DSM memory that start in the middle of a
  block, at \<open>0x101800\<close>, so that the first 2048 bytes have node 1 as home and the last
  2048 bytes have not been touched yet; 2304 bytes on node 2; and a weak access without
  location to 64 bytes that the directory has on node 0.
\<close>

definition ex_unaligned_accesses :: "DataAccess list" where
  "ex_unaligned_accesses =
     [\<lparr> da_location = Some ex_node0,
        da_region = \<lparr> startAddress = 0x101800, regionLength = 0x1000 \<rparr>, da_weak = False \<rparr>,
      \<lparr> da_location = Some ex_node2,
        da_region = \<lparr> startAddress = 0x1000, regionLength = 0x900 \<rparr>, da_weak = False \<rparr>,
      \<lparr> da_location = None,
        da_region = \<lparr> startAddress = 0x2000, regionLength = 64 \<rparr>, da_weak = True \<rparr>]"

section \<open>Theorems\<close>

subsection \<open>TaskAndRegion comparison\<close>

text \<open>
  C10. For every pair of \<^verbatim>\<open>TaskAndRegion\<close> values, \<^verbatim>\<open>a != b\<close> returns true exactly
  when \<^verbatim>\<open>a == b\<close> returns true: both operators compute the same conjunction, so
  \<^verbatim>\<open>operator!=\<close> is not the negation of \<^verbatim>\<open>operator==\<close>.
\<close>

theorem TaskAndRegion_ne_same_as_eq:
  "TaskAndRegion_ne a b = TaskAndRegion_eq a b
   \<and> TaskAndRegion_ne a b = (tr_task a = tr_task b \<and> region_eq (tr_region a) (tr_region b))
   \<and> TaskAndRegion_ne a b \<noteq> (\<not> TaskAndRegion_eq a b)"
  by (simp add: TaskAndRegion_ne_def TaskAndRegion_eq_def)

subsection \<open>ClusterDataLinkStep\<close>

lemma linkRegion_Inr:
  "linkRegion nd cur w region location writeID rd wr = Inr w' \<Longrightarrow>
     \<exists>idx. linkRegion_locationIndex nd cur location rd wr = Inr idx \<and>
       w' = w \<lparr> lw_step := (lw_step w) \<lparr> dl_bytesToLink :=
                     dl_bytesToLink (lw_step w) - linkedBytes region rd wr \<rparr>,
               lw_sent := lw_sent w @ [\<lparr> si_region = region, si_src = idx, si_readSat = rd,
                  si_writeSat = wr, si_writeID = writeID, si_namespacePredecessor = None \<rparr>] \<rparr>"
  by (auto simp: linkRegion_def Let_def split: if_splits sum.splits)

lemma linkRegion_never_deletes:
  "linkRegion nd cur w region location writeID rd wr = Inr w' \<Longrightarrow> \<not> lw_deleted w'"
  by (auto simp: linkRegion_def Let_def split: if_splits sum.splits)

lemma start_deletes_iff:
  "start nd w = Inr w' \<Longrightarrow>
     lw_deleted w' = (dl_read (lw_step w) \<and> dl_write (lw_step w))
     \<and> dl_started (lw_step w') = (dl_started (lw_step w) \<or> \<not> lw_deleted w')"
  by (auto simp: start_def Let_def split: if_splits sum.splits)

lemma linkRegion_returns:
  assumes "\<not> lw_deleted w"
    and "nd \<or> (dl_targetMemoryPlace (lw_step w) \<noteq> None \<and> (location = None \<longrightarrow> wr \<and> \<not> rd))"
  shows "\<exists>w'. linkRegion nd cur w region location writeID rd wr = Inr w'"
  using assms
  by (cases location)
     (auto simp: linkRegion_def linkRegion_locationIndex_def assert_ok_def Let_def)

lemma unat_minus_linkedBytes:
  assumes le: "(if rd \<and> wr then 2 else 1) * unat (regionLength region) \<le> unat (b :: size_t)"
  shows "unat (b - linkedBytes region rd wr) =
           unat b - (if rd \<and> wr then 2 else 1) * unat (regionLength region)"
proof -
  have lt: "unat b < 2 ^ 64" using unsigned_less [of b] by simp
  have eq: "unat (linkedBytes region rd wr) =
              (if rd \<and> wr then 2 else 1) * unat (regionLength region)"
  proof (cases "rd \<and> wr")
    case True
    with le lt have "unat (regionLength region) * 2 < 2 ^ 64" by simp
    then have "unat (regionLength region * 2) = unat (regionLength region) * 2"
      by (simp add: unat_word_ariths)
    with True show ?thesis by (simp add: linkedBytes_def)
  next
    case False
    then show ?thesis by (auto simp: linkedBytes_def)
  qed
  with le have "linkedBytes region rd wr \<le> b" by (simp add: word_le_nat_alt)
  then have "unat (b - linkedBytes region rd wr) = unat b - unat (linkedBytes region rd wr)"
    by (rule unat_sub)
  with eq show ?thesis by simp
qed

lemma start_ex_world: "start False ex_world = Inr ex_world_started"
  by (simp add: start_def start_location_def start_execStep_def assert_ok_def Let_def
      ex_world_def ex_world_started_def ex_step_def ex_region_def ex_node0_def ex_node1_def)

text \<open>
  C9. Every call of \<^verbatim>\<open>linkRegion\<close> that returns has decreased \<^verbatim>\<open>_bytesToLink\<close> by
  twice the region's size when both \<open>read\<close> and \<open>write\<close> are true and by the region's
  size otherwise, in 64-bit arithmetic; read as natural numbers this is the exact
  difference whenever the count was at least the amount taken off. The call returns for
  every live step in a build without assertions, and in a debug build when the
  assertions of the source hold.
\<close>

theorem linkRegion_decreases_bytesToLink:
  "(\<forall>w'. linkRegion nd cur w region location writeID rd wr = Inr w' \<longrightarrow>
      dl_bytesToLink (lw_step w') =
        dl_bytesToLink (lw_step w)
          - (if rd \<and> wr then 2 * regionLength region else regionLength region)
      \<and> ((if rd \<and> wr then 2 else 1) * unat (regionLength region)
            \<le> unat (dl_bytesToLink (lw_step w)) \<longrightarrow>
          unat (dl_bytesToLink (lw_step w')) =
            unat (dl_bytesToLink (lw_step w))
              - (if rd \<and> wr then 2 else 1) * unat (regionLength region)))
   \<and> (\<not> lw_deleted w \<and>
        (nd \<or> (dl_targetMemoryPlace (lw_step w) \<noteq> None \<and> (location = None \<longrightarrow> wr \<and> \<not> rd)))
        \<longrightarrow> (\<exists>w'. linkRegion nd cur w region location writeID rd wr = Inr w'))"
proof (intro conjI allI impI)
  fix w'
  assume r: "linkRegion nd cur w region location writeID rd wr = Inr w'"
  from linkRegion_Inr [OF r]
  have b: "dl_bytesToLink (lw_step w') =
             dl_bytesToLink (lw_step w) - linkedBytes region rd wr"
    by auto
  then show "dl_bytesToLink (lw_step w') =
        dl_bytesToLink (lw_step w)
          - (if rd \<and> wr then 2 * regionLength region else regionLength region)"
    by (simp add: linkedBytes_def)
  assume "(if rd \<and> wr then 2 else 1) * unat (regionLength region)
            \<le> unat (dl_bytesToLink (lw_step w))"
  from unat_minus_linkedBytes [OF this] b
  show "unat (dl_bytesToLink (lw_step w')) =
            unat (dl_bytesToLink (lw_step w))
              - (if rd \<and> wr then 2 else 1) * unat (regionLength region)"
    by simp
next
  assume "\<not> lw_deleted w \<and>
        (nd \<or> (dl_targetMemoryPlace (lw_step w) \<noteq> None \<and> (location = None \<longrightarrow> wr \<and> \<not> rd)))"
  then show "\<exists>w'. linkRegion nd cur w region location writeID rd wr = Inr w'"
    using linkRegion_returns by blast
qed

theorem linkRegion_decreases_bytesToLink_witness:
  "link_status (linkRegion False ex_node0 ex_world ex_region (Some ex_node0) 7 True True)
     = Some (False, 16 - 2 * 8, False)"
proof -
  note inst = linkRegion_decreases_bytesToLink
    [of False ex_node0 ex_world ex_region "Some ex_node0" 7 True True]
  have live: "\<not> lw_deleted ex_world \<and>
      (False \<or> (dl_targetMemoryPlace (lw_step ex_world) \<noteq> None
         \<and> (Some ex_node0 = None \<longrightarrow> True \<and> \<not> True)))"
    by (simp add: ex_world_def ex_step_def)
  with inst obtain w' where
    r: "linkRegion False ex_node0 ex_world ex_region (Some ex_node0) 7 True True = Inr w'"
    by blast
  with inst have "dl_bytesToLink (lw_step w') =
      dl_bytesToLink (lw_step ex_world) - 2 * regionLength ex_region"
    by simp
  then have b: "dl_bytesToLink (lw_step w') = 16 - 2 * 8"
    by (simp add: ex_world_def ex_step_def ex_region_def)
  from linkRegion_Inr [OF r] have "dl_started (lw_step w') = False" "lw_deleted w' = False"
    by (auto simp: ex_world_def ex_step_def)
  with b r show ?thesis by (simp add: link_status_def)
qed

text \<open>
  C1 on the code. The step of \<open>ex_world\<close> is started (\<^verbatim>\<open>start\<close> does not delete it and
  sets \<^verbatim>\<open>_started\<close>, leaving 8 bytes to link); the \<^verbatim>\<open>linkRegion\<close> call that links
  the write satisfiability of the 8 bytes brings \<^verbatim>\<open>_bytesToLink\<close> to zero, and the step
  is still not deleted.
\<close>

theorem linkRegion_at_zero_leaves_step:
  "link_status (start False ex_world) = Some (True, 8, False)
   \<and> start False ex_world = Inr ex_world_started
   \<and> link_status (linkRegion False ex_node0 ex_world_started ex_region (Some ex_node0) 7
        False True) = Some (True, 0, False)"
  by (simp add: start_ex_world link_status_def linkRegion_def linkRegion_locationIndex_def
      linkedBytes_def assert_ok_def Let_def ex_world_started_def ex_step_def ex_region_def
      ex_node0_def ex_node1_def)

subsection \<open>ClusterDataCopyStep\<close>

text \<open>
  C6. For a data-fetch step that needs a transfer and whose write ID the local node
  already holds for the step's region, every call of \<^verbatim>\<open>requiresDataFetch\<close> that returns
  has returned false (no transfer is issued), released the successors once and deleted
  the step, and has changed nothing else: no location is updated and no callback is
  attached to a pending transfer. The call returns for every live step in a build
  without assertions, and in a debug build when the assertions of the source hold.
\<close>

theorem requiresDataFetch_local_WriteID:
  assumes "dc_needsTransfer (cw_step w)"
    and "checkWriteIDLocal (dc_writeID (cw_step w)) (dc_fullRegion (cw_step w))"
  shows "(\<forall>r. requiresDataFetch nd cur checkWriteIDLocal w = Inr r \<longrightarrow>
            r = (False, w \<lparr> cw_released := cw_released w + 1, cw_deleted := True \<rparr>))
         \<and> (\<not> cw_deleted w \<and>
              (nd \<or> (cur = dc_targetMemoryPlace (cw_step w)
                 \<and> mpType (dc_sourceMemoryPlace (cw_step w)) = nanos6_cluster_device
                 \<and> mpType (dc_targetMemoryPlace (cw_step w)) = nanos6_cluster_device
                 \<and> dc_sourceMemoryPlace (cw_step w) \<noteq> dc_targetMemoryPlace (cw_step w)))
             \<longrightarrow> requiresDataFetch nd cur checkWriteIDLocal w =
                  Inr (False, w \<lparr> cw_released := cw_released w + 1, cw_deleted := True \<rparr>))"
  using assms
  by (auto simp: requiresDataFetch_def Let_def assert_ok_def split: if_splits)

theorem requiresDataFetch_local_WriteID_witness:
  "requiresDataFetch False ex_node1 ex_checkWriteIDLocal ex_copy_world =
     Inr (False, ex_copy_world \<lparr> cw_released := 1, cw_deleted := True \<rparr>)"
proof -
  have n: "dc_needsTransfer (cw_step ex_copy_world)"
    by (simp add: ex_copy_world_def)
  have l: "ex_checkWriteIDLocal (dc_writeID (cw_step ex_copy_world))
             (dc_fullRegion (cw_step ex_copy_world))"
    by (simp add: ex_copy_world_def ex_checkWriteIDLocal_def region_eq_def)
  have a: "\<not> cw_deleted ex_copy_world \<and>
      (False \<or> (ex_node1 = dc_targetMemoryPlace (cw_step ex_copy_world)
         \<and> mpType (dc_sourceMemoryPlace (cw_step ex_copy_world)) = nanos6_cluster_device
         \<and> mpType (dc_targetMemoryPlace (cw_step ex_copy_world)) = nanos6_cluster_device
         \<and> dc_sourceMemoryPlace (cw_step ex_copy_world)
              \<noteq> dc_targetMemoryPlace (cw_step ex_copy_world)))"
    by (simp add: ex_copy_world_def ex_node0_def ex_node1_def)
  from requiresDataFetch_local_WriteID [where w = ex_copy_world
      and checkWriteIDLocal = ex_checkWriteIDLocal and nd = False and cur = ex_node1, OF n l] a
  have "requiresDataFetch False ex_node1 ex_checkWriteIDLocal ex_copy_world =
     Inr (False, ex_copy_world \<lparr> cw_released := cw_released ex_copy_world + 1, cw_deleted := True \<rparr>)"
    by blast
  then show ?thesis by (simp add: ex_copy_world_def)
qed

subsection \<open>HostExecutionStep\<close>

lemma HostExecutionStep_start_in_worker:
  "HostExecutionStep_start (Some \<lparr> wt_computePlace = Some cpu, wt_task = Some t \<rparr>)
       task tableSize cpuAfter = HostExecutionStep_run task cpu tableSize cpuAfter"
  by (simp add: HostExecutionStep_start_def)

text \<open>
  C7. Outside a worker-thread context (there is no current worker thread, or it has no
  CPU, or no task assigned) \<^verbatim>\<open>HostExecutionStep::start\<close> records the step as the task's
  execution step, adds the task to the scheduler with no compute place and the
  busy-compute-place hint, and does nothing else: the body of the task is not run.
\<close>

theorem HostExecutionStep_start_outside_worker:
  assumes "outside_worker_context currentThread"
  shows "HostExecutionStep_start currentThread task tableSize cpuAfter =
           [SetExecutionStep (ht_ptr task),
            AddReadyTask (ht_ptr task) None BUSY_COMPUTE_PLACE_TASK_HINT]
         \<and> Body (ht_ptr task) \<notin> set (HostExecutionStep_start currentThread task tableSize cpuAfter)"
  using assms
  by (auto simp: HostExecutionStep_start_def outside_worker_context_def
      HostExecutionStep_requeue_def split: option.splits)

theorem HostExecutionStep_start_outside_worker_witness:
  "outside_worker_context (Some \<lparr> wt_computePlace = Some 5, wt_task = None \<rparr>)
   \<and> HostExecutionStep_start (Some \<lparr> wt_computePlace = Some 5, wt_task = None \<rparr>)
       \<lparr> ht_ptr = 1, ht_hasCode = True \<rparr> 0 5
     = [SetExecutionStep 1, AddReadyTask 1 None BUSY_COMPUTE_PLACE_TASK_HINT]"
proof -
  have o: "outside_worker_context (Some \<lparr> wt_computePlace = Some 5, wt_task = None \<rparr>)"
    by (simp add: outside_worker_context_def)
  from HostExecutionStep_start_outside_worker [OF o, of "\<lparr> ht_ptr = 1, ht_hasCode = True \<rparr>" 0 5] o
  show ?thesis by simp
qed

subsection \<open>cpuBecomesIdle\<close>

lemma cpuBecomesIdle_Inr:
  "cpuBecomesIdle nd hasAvailableWork s cpu = Inr (res, s') \<Longrightarrow>
     \<exists>index. cpu = Some index \<and>
       (if hasAvailableWork index
        then res = False \<and> s' = s \<lparr> idleTrace := idleTrace s @ [LockIdleCPUs, HasAvailableWork index, UnlockIdleCPUs] \<rparr>
        else res = True \<and> 0 \<le> index \<and> nat index < length (idleCPUs s) \<and>
             s' = s \<lparr> idleTrace := idleTrace s @ [LockIdleCPUs, HasAvailableWork index,
                  MonitoringCpuBecomesIdle index, SuspendingComputePlace index, UnlockIdleCPUs],
                idleCPUs := (idleCPUs s) [nat index := True],
                numIdleCPUs := numIdleCPUs s + 1 \<rparr>)"
  by (cases cpu) (auto simp: cpuBecomesIdle_def Let_def assert_ok_def split: if_splits)

lemma cpuBecomesIdle_returns:
  assumes "hasAvailableWork index \<or>
     (0 \<le> index \<and> index < int (length (idleCPUs s))
        \<and> (nd \<or> unat (numIdleCPUs s + 1) \<le> numCPUs s))"
  shows "\<exists>r. cpuBecomesIdle nd hasAvailableWork s (Some index) = Inr r"
  using assms by (auto simp: cpuBecomesIdle_def Let_def assert_ok_def)

text \<open>
  C5. Every call of \<^verbatim>\<open>cpuBecomesIdle\<close> that returns has taken the idle-set lock once,
  asked the scheduler for available work while holding it, and released the lock last.
  If work is available the result is false and the bitmap and the idle count are
  unchanged; otherwise, between the same lock and unlock, the bit of the CPU is set, the
  idle count is one more, and the result is true. The call returns whenever work is
  available, and otherwise when the index is inside the bitmap (and, in a debug build,
  the count stays within the number of CPUs).
\<close>

theorem cpuBecomesIdle_rechecks_under_lock:
  "(\<forall>res s'. cpuBecomesIdle nd hasAvailableWork s (Some index) = Inr (res, s') \<longrightarrow>
      (if hasAvailableWork index
       then res = False \<and> idleCPUs s' = idleCPUs s \<and> numIdleCPUs s' = numIdleCPUs s
            \<and> numCPUs s' = numCPUs s
            \<and> idleTrace s' = idleTrace s @
                 [LockIdleCPUs, HasAvailableWork index, UnlockIdleCPUs]
       else res = True \<and> idleCPUs s' = (idleCPUs s) [nat index := True]
            \<and> idleCPUs s' ! nat index
            \<and> numIdleCPUs s' = numIdleCPUs s + 1 \<and> numCPUs s' = numCPUs s
            \<and> idleTrace s' = idleTrace s @
                 [LockIdleCPUs, HasAvailableWork index, MonitoringCpuBecomesIdle index,
                  SuspendingComputePlace index, UnlockIdleCPUs]))
   \<and> (hasAvailableWork index \<or>
        (0 \<le> index \<and> index < int (length (idleCPUs s))
           \<and> (nd \<or> unat (numIdleCPUs s + 1) \<le> numCPUs s))
      \<longrightarrow> (\<exists>r. cpuBecomesIdle nd hasAvailableWork s (Some index) = Inr r))"
proof (intro conjI allI impI)
  fix res s'
  assume "cpuBecomesIdle nd hasAvailableWork s (Some index) = Inr (res, s')"
  from cpuBecomesIdle_Inr [OF this]
  show "if hasAvailableWork index
       then res = False \<and> idleCPUs s' = idleCPUs s \<and> numIdleCPUs s' = numIdleCPUs s
            \<and> numCPUs s' = numCPUs s
            \<and> idleTrace s' = idleTrace s @
                 [LockIdleCPUs, HasAvailableWork index, UnlockIdleCPUs]
       else res = True \<and> idleCPUs s' = (idleCPUs s) [nat index := True]
            \<and> idleCPUs s' ! nat index
            \<and> numIdleCPUs s' = numIdleCPUs s + 1 \<and> numCPUs s' = numCPUs s
            \<and> idleTrace s' = idleTrace s @
                 [LockIdleCPUs, HasAvailableWork index, MonitoringCpuBecomesIdle index,
                  SuspendingComputePlace index, UnlockIdleCPUs]"
    by (auto split: if_splits)
next
  assume "hasAvailableWork index \<or>
        (0 \<le> index \<and> index < int (length (idleCPUs s))
           \<and> (nd \<or> unat (numIdleCPUs s + 1) \<le> numCPUs s))"
  then show "\<exists>r. cpuBecomesIdle nd hasAvailableWork s (Some index) = Inr r"
    by (rule cpuBecomesIdle_returns)
qed

theorem cpuBecomesIdle_rechecks_under_lock_witness:
  "cpuBecomesIdle False ex_hasAvailableWork ex_idle (Some 2) =
     Inr (True, \<lparr> idleCPUs = [False, True, True], numIdleCPUs = 2, numCPUs = 3,
        idleTrace = [LockIdleCPUs, HasAvailableWork 2, MonitoringCpuBecomesIdle 2,
          SuspendingComputePlace 2, UnlockIdleCPUs] \<rparr>)"
proof -
  note inst = cpuBecomesIdle_rechecks_under_lock [of False ex_hasAvailableWork ex_idle 2]
  have "ex_hasAvailableWork 2 \<or>
        (0 \<le> (2 :: int) \<and> 2 < int (length (idleCPUs ex_idle))
           \<and> (False \<or> unat (numIdleCPUs ex_idle + 1) \<le> numCPUs ex_idle))"
    by (simp add: ex_idle_def)
  with inst [THEN conjunct2]
  have "\<exists>r. cpuBecomesIdle False ex_hasAvailableWork ex_idle (Some 2) = Inr r"
    by (rule mp)
  then obtain res s' where
    r: "cpuBecomesIdle False ex_hasAvailableWork ex_idle (Some 2) = Inr (res, s')"
    by (metis surj_pair)
  have nw: "\<not> ex_hasAvailableWork 2" by (simp add: ex_hasAvailableWork_def)
  from inst [THEN conjunct1, rule_format, OF r] nw
  have "res = True \<and> idleCPUs s' = (idleCPUs ex_idle) [nat 2 := True]
    \<and> numIdleCPUs s' = numIdleCPUs ex_idle + 1 \<and> numCPUs s' = numCPUs ex_idle
    \<and> idleTrace s' = idleTrace ex_idle @
       [LockIdleCPUs, HasAvailableWork 2, MonitoringCpuBecomesIdle 2,
        SuspendingComputePlace 2, UnlockIdleCPUs]"
    by simp
  then have "res = True \<and> s' = \<lparr> idleCPUs = [False, True, True], numIdleCPUs = 2, numCPUs = 3,
        idleTrace = [LockIdleCPUs, HasAvailableWork 2, MonitoringCpuBecomesIdle 2,
          SuspendingComputePlace 2, UnlockIdleCPUs] \<rparr>"
    by (cases s') (simp add: ex_idle_def)
  with r show ?thesis by simp
qed

subsection \<open>checkMail\<close>

text \<open>
  C8. \<^verbatim>\<open>checkMail\<close> never returns a message of type \<open>DATA_RAW\<close>; and for every probed
  message whose tag has \<open>DATA_RAW\<close> in its low-order byte, it returns null after the
  probe alone: the byte count is not read and nothing is received, so the message stays
  in the communicator for the receive that \<^verbatim>\<open>fetchData\<close> posts.
\<close>

theorem checkMail_never_DATA_RAW:
  "(\<forall>m calls. checkMail nd DATA_RAW a = Inr (m, calls) \<longrightarrow> (\<forall>d. m \<noteq> Created DATA_RAW d))
   \<and> (iprobe_ret a = 0 \<and> iprobe_flag a \<noteq> 0 \<and> MPI_TAG (iprobe_status a) AND 0xff = DATA_RAW
        \<longrightarrow> checkMail nd DATA_RAW a = Inr (NoMessage, [MPI_Iprobe]))"
  by (auto simp: checkMail_def Let_def MPIErrorHandler_ok_def split: if_splits)

theorem checkMail_never_DATA_RAW_witness:
  "checkMail False 11 (ex_answers 0x2A0B) = Inr (NoMessage, [MPI_Iprobe])"
proof -
  have "iprobe_ret (ex_answers 0x2A0B) = 0 \<and> iprobe_flag (ex_answers 0x2A0B) \<noteq> 0
        \<and> MPI_TAG (iprobe_status (ex_answers 0x2A0B)) AND 0xff = 11"
    by (simp add: ex_answers_def)
  with checkMail_never_DATA_RAW [of False 11 "ex_answers 0x2A0B"]
  show ?thesis by blast
qed

subsection \<open>Event counter\<close>

lemma decreaseReleaseCount_zero:
  "fst (decreaseReleaseCount t n) = (t_countdownToRelease t = int n)"
  by (auto simp: decreaseReleaseCount_def Let_def)

lemma markAsReleased_success: "fst (markAsReleased t) = (\<not> t_released t)"
  by (simp add: markAsReleased_def)

lemma event_counter_cpu_release: "\<exists>cpu. event_counter_cpu True ctx = Inr cpu"
  by (auto simp: event_counter_cpu_def assert_ok_def split: option.splits)

text \<open>
  C4. On every call of \<^verbatim>\<open>nanos6_decrease_task_event_counter\<close> that returns, the
  accesses of the task are unregistered exactly when the decrement is not zero and
  \<^verbatim>\<open>decreaseReleaseCount\<close> brought the release counter to zero, and
  \<^verbatim>\<open>disposeTask\<close> is called exactly when, in addition, \<^verbatim>\<open>markAsReleased\<close> (made after
  the unregistration and the finalization) returned true. The call returns whenever the
  CPU of the calling thread is found without a failed assertion.
\<close>

theorem event_counter_disposal:
  "(\<forall>t' calls.
      nanos6_decrease_task_event_counter nd ctx unreg fin (Some task) decrement
        = Inr (t', calls) \<longrightarrow>
      ((\<exists>e \<in> set calls. is_unregistration e) =
         (decrement \<noteq> 0 \<and> fst (decreaseReleaseCount task (unat decrement))))
      \<and> ((DisposeTask \<in> set calls) =
         (decrement \<noteq> 0 \<and> fst (decreaseReleaseCount task (unat decrement))
          \<and> fst (markAsReleased
                 (fin (unreg (snd (decreaseReleaseCount task (unat decrement)))))))))
   \<and> ((\<exists>cpu. event_counter_cpu nd ctx = Inr cpu) \<longrightarrow>
        (\<exists>r. nanos6_decrease_task_event_counter nd ctx unreg fin (Some task) decrement
               = Inr r))"
  by (auto simp: nanos6_decrease_task_event_counter_def is_unregistration_def Let_def
      assert_ok_def split: if_splits sum.splits prod.splits)

theorem event_counter_disposal_witness:
  "calls_of (nanos6_decrease_task_event_counter False ex_context id id (Some ex_task) 2)
     = [UnregisterTaskDataAccesses (Some 5) False, TaskFinished (Some 5), DisposeTask]
   \<and> DisposeTask \<in> set (calls_of
        (nanos6_decrease_task_event_counter False ex_context id id (Some ex_task) 2))"
proof -
  have r: "nanos6_decrease_task_event_counter False ex_context id id (Some ex_task) 2
     = Inr (Some \<lparr> t_countdownToRelease = 0, t_released = True \<rparr>,
            [UnregisterTaskDataAccesses (Some 5) False, TaskFinished (Some 5), DisposeTask])"
    by (simp add: nanos6_decrease_task_event_counter_def decreaseReleaseCount_def
        markAsReleased_def event_counter_cpu_def ex_context_def ex_task_def assert_ok_def
        Let_def)
  have z: "(2 :: 32 word) \<noteq> 0 \<and> fst (decreaseReleaseCount ex_task (unat (2 :: 32 word)))
      \<and> fst (markAsReleased
            (id (id (snd (decreaseReleaseCount ex_task (unat (2 :: 32 word)))))))"
    by (simp add: decreaseReleaseCount_def markAsReleased_def ex_task_def Let_def)
  from event_counter_disposal [of False ex_context id id ex_task 2] r z
  have "DisposeTask \<in> set [UnregisterTaskDataAccesses (Some 5) False, TaskFinished (Some 5),
      DisposeTask]"
    by blast
  with r show ?thesis by (simp add: calls_of_def)
qed

subsection \<open>ClusterLocalityScheduler\<close>

lemma max_element_from_props:
  assumes "i = length pre" "largest < length pre" "v = pre ! largest"
    "\<forall>j < length pre. pre ! j \<le> v" "\<forall>j < largest. pre ! j < v"
  shows "max_element_from rest i largest v < length (pre @ rest)
     \<and> (\<forall>j < length (pre @ rest). (pre @ rest) ! j \<le> (pre @ rest) ! max_element_from rest i largest v)
     \<and> (\<forall>j < max_element_from rest i largest v.
           (pre @ rest) ! j < (pre @ rest) ! max_element_from rest i largest v)"
  using assms
proof (induction rest arbitrary: pre i largest v)
  case Nil
  then show ?case by simp
next
  case (Cons x rest)
  show ?case
  proof (cases "v < x")
    case True
    have "max_element_from rest (Suc i) i x < length ((pre @ [x]) @ rest)
     \<and> (\<forall>j < length ((pre @ [x]) @ rest). ((pre @ [x]) @ rest) ! j \<le> ((pre @ [x]) @ rest) ! max_element_from rest (Suc i) i x)
     \<and> (\<forall>j < max_element_from rest (Suc i) i x.
           ((pre @ [x]) @ rest) ! j < ((pre @ [x]) @ rest) ! max_element_from rest (Suc i) i x)"
    proof (rule Cons.IH)
      show "Suc i = length (pre @ [x])" using Cons.prems by simp
      show "i < length (pre @ [x])" using Cons.prems by simp
      show "x = (pre @ [x]) ! i" using Cons.prems by simp
      show "\<forall>j<length (pre @ [x]). (pre @ [x]) ! j \<le> x"
        using Cons.prems True by (auto simp: nth_append less_Suc_eq intro: order.trans less_imp_le)
      show "\<forall>j<i. (pre @ [x]) ! j < x"
        using Cons.prems True by (auto simp: nth_append intro: le_less_trans)
    qed
    with True show ?thesis by simp
  next
    case False
    have "max_element_from rest (Suc i) largest v < length ((pre @ [x]) @ rest)
     \<and> (\<forall>j < length ((pre @ [x]) @ rest). ((pre @ [x]) @ rest) ! j \<le> ((pre @ [x]) @ rest) ! max_element_from rest (Suc i) largest v)
     \<and> (\<forall>j < max_element_from rest (Suc i) largest v.
           ((pre @ [x]) @ rest) ! j < ((pre @ [x]) @ rest) ! max_element_from rest (Suc i) largest v)"
    proof (rule Cons.IH)
      show "Suc i = length (pre @ [x])" using Cons.prems by simp
      show "largest < length (pre @ [x])" using Cons.prems by simp
      show "v = (pre @ [x]) ! largest" using Cons.prems by (simp add: nth_append)
      show "\<forall>j<length (pre @ [x]). (pre @ [x]) ! j \<le> v"
        using Cons.prems False by (auto simp: nth_append less_Suc_eq)
      show "\<forall>j<largest. (pre @ [x]) ! j < v"
        using Cons.prems by (auto simp: nth_append)
    qed
    with False show ?thesis by simp
  qed
qed

lemma max_element_props:
  assumes "xs \<noteq> []"
  shows "max_element xs < length xs
     \<and> (\<forall>j < length xs. xs ! j \<le> xs ! max_element xs)
     \<and> (\<forall>j < max_element xs. xs ! j < xs ! max_element xs)"
proof -
  from assms obtain x rest where xs: "xs = x # rest" by (cases xs) auto
  have "max_element_from rest 1 0 x < length ([x] @ rest)
     \<and> (\<forall>j < length ([x] @ rest). ([x] @ rest) ! j \<le> ([x] @ rest) ! max_element_from rest 1 0 x)
     \<and> (\<forall>j < max_element_from rest 1 0 x.
           ([x] @ rest) ! j < ([x] @ rest) ! max_element_from rest 1 0 x)"
    by (rule max_element_from_props) simp_all
  with xs show ?thesis by (simp add: max_element_def)
qed

lemma adjacent_find_not_equal_iff:
  "adjacent_find_not_equal xs = (\<exists>a \<in> set xs. \<exists>b \<in> set xs. a \<noteq> b)"
  by (induction xs rule: adjacent_find_not_equal.induct) auto

lemma add_bytes_length:
  "add_bytes acc i n = Inr acc' \<Longrightarrow> length (fst acc') = length (fst acc)"
  by (auto simp: add_bytes_def split: if_splits)

lemma argoBlocks_length:
  assumes "argoBlocks env addr e acc = Some y"
  shows "\<forall>acc'. y = Inr acc' \<longrightarrow> length (fst acc') = length (fst acc)"
proof (rule argoBlocks.raw_induct
    [where P = "\<lambda>env addr e acc y. \<forall>acc'. y = Inr acc' \<longrightarrow> length (fst acc') = length (fst acc)",
     OF _ assms], goal_cases)
  case (1 f env addr endAddress acc y)
  note IH = 1(1) and body = 1(2)
  show ?case
  proof (cases "addr < endAddress")
    case False
    with body show ?thesis by auto
  next
    case True
    show ?thesis
    proof (cases "get_homenode env addr < 0")
      case neg: True
      with True body have "f env (addr + get_block_size env) endAddress
          (fst acc, snd acc + (if addr + get_block_size env < endAddress then get_block_size env
             else endAddress - addr)) = Some y"
        by (simp add: Let_def)
      from IH [OF this] show ?thesis by simp
    next
      case nonneg: False
      show ?thesis
      proof (cases "add_bytes acc (nat (get_homenode env addr))
          (if addr + get_block_size env < endAddress then get_block_size env else endAddress - addr)")
        case (Inl e)
        with True nonneg body show ?thesis by (auto simp: Let_def)
      next
        case (Inr acc1)
        with True nonneg body have "f env (addr + get_block_size env) endAddress acc1 = Some y"
          by (simp add: Let_def)
        from IH [OF this] add_bytes_length [OF Inr] show ?thesis by simp
      qed
    qed
  qed
qed

lemma argoRegion_length:
  "argoRegion env r acc = Some (Inr acc') \<Longrightarrow> length (fst acc') = length (fst acc)"
  using argoBlocks_length [of env "startAddress r" "startAddress r + regionLength r" acc "Inr acc'"]
  by (simp add: argoRegion_def)

lemma homeNodesLoop_length:
  "homeNodesLoop env region entries acc = Some (Inr acc') \<Longrightarrow>
     length (fst acc') = length (fst acc)"
proof (induction entries arbitrary: acc)
  case Nil
  then show ?case by simp
next
  case (Cons entry rest)
  then show ?case
    by (auto simp: Let_def split: if_splits option.splits sum.splits
        dest!: argoRegion_length add_bytes_length)
qed

lemma accountAccess_length:
  "accountAccess nd env access acc = Some (Inr (b, acc')) \<Longrightarrow>
     length (fst acc') = length (fst acc)"
  by (auto simp: accountAccess_def Let_def split: if_splits option.splits sum.splits
      dest!: argoRegion_length add_bytes_length homeNodesLoop_length)

lemma processAllDataAccesses_length:
  "processAllDataAccesses nd env accesses acc = Some (Inr (b, acc')) \<Longrightarrow>
     length (fst acc') = length (fst acc)"
proof (induction accesses arbitrary: acc)
  case Nil
  then show ?case by simp
next
  case (Cons access rest)
  then show ?case
    by (auto split: option.splits sum.splits bool.splits dest!: accountAccess_length)
qed

lemma max_element_Max:
  assumes "xs \<noteq> []"
  shows "xs ! max_element xs = Max (set xs)"
proof -
  from max_element_props [OF assms]
  have k: "max_element xs < length xs" and le: "\<forall>j < length xs. xs ! j \<le> xs ! max_element xs"
    by auto
  show ?thesis
  proof (rule sym, rule Max_eqI)
    show "finite (set xs)" by simp
    show "xs ! max_element xs \<in> set xs" using k by simp
    fix y assume "y \<in> set xs"
    then obtain j where "j < length xs" "y = xs ! j" by (auto simp: in_set_conv_nth)
    with le show "y \<le> xs ! max_element xs" by simp
  qed
qed

lemma all_equal_iff:
  "(\<not> adjacent_find_not_equal xs) = (\<forall>i < length xs. \<forall>j < length xs. xs ! i = xs ! j)"
proof
  assume "\<not> adjacent_find_not_equal xs"
  then have eq: "\<forall>a \<in> set xs. \<forall>b \<in> set xs. a = b"
    by (simp add: adjacent_find_not_equal_iff)
  show "\<forall>i < length xs. \<forall>j < length xs. xs ! i = xs ! j"
  proof (intro allI impI)
    fix i j assume "i < length xs" "j < length xs"
    then have "xs ! i \<in> set xs" "xs ! j \<in> set xs" by simp_all
    with eq show "xs ! i = xs ! j" by blast
  qed
next
  assume eq: "\<forall>i < length xs. \<forall>j < length xs. xs ! i = xs ! j"
  have "\<forall>a \<in> set xs. \<forall>b \<in> set xs. a = b"
  proof (intro ballI)
    fix a b assume "a \<in> set xs" "b \<in> set xs"
    then obtain i j where "i < length xs" "a = xs ! i" "j < length xs" "b = xs ! j"
      by (metis in_set_conv_nth)
    with eq show "a = b" by blast
  qed
  then show "\<not> adjacent_find_not_equal xs"
    by (simp add: adjacent_find_not_equal_iff)
qed

lemma chooseNode_all_equal:
  assumes "bytes \<noteq> []" "\<not> adjacent_find_not_equal bytes"
  shows "chooseNode nd env nextFt bytes ft_bytes = Inr (int nextFt)"
  using assms by (simp add: chooseNode_def assert_ok_def Let_def)

lemma chooseNode_not_all_equal:
  assumes "bytes \<noteq> []" "adjacent_find_not_equal bytes" "length bytes = clusterSize env"
    "\<not> ftExceeds env ft_bytes (bytes ! max_element bytes)"
  shows "chooseNode nd env nextFt bytes ft_bytes = Inr (int (max_element bytes))"
  using assms by (simp add: chooseNode_def assert_ok_def Let_def)

text \<open>
  The choice alone: when the counts that the function has accumulated have their only
  maximum at node \<open>K\<close> and the test of the threshold is false, the function returns
  \<open>K\<close> (on a cluster of one node, provided \<^verbatim>\<open>getNextFtNode()\<close> gives a node of the
  cluster).
\<close>

lemma chooseNode_unique_maximum:
  assumes acc: "processAllDataAccesses nd env accesses (replicate (clusterSize env) 0, 0)
                  = Some (Inr (True, bytes, ft_bytes))"
    and K: "K < clusterSize env"
    and uniq: "\<forall>j < clusterSize env. j \<noteq> K \<longrightarrow> bytes ! j < bytes ! K"
    and ft: "\<not> ftExceeds env ft_bytes (bytes ! K)"
    and rr: "nextFt < clusterSize env"
  shows "getScheduledNode nd env nextFt accesses = Some (Inr (int K))"
proof -
  from processAllDataAccesses_length [OF acc] have len: "length bytes = clusterSize env"
    by simp
  with K have ne: "bytes \<noteq> []" by auto
  from max_element_props [OF ne]
  have k: "max_element bytes < length bytes"
    and le: "\<forall>j < length bytes. bytes ! j \<le> bytes ! max_element bytes"
    by auto
  have kK: "max_element bytes = K"
  proof (rule ccontr)
    assume "max_element bytes \<noteq> K"
    with uniq k len have "bytes ! max_element bytes < bytes ! K" by simp
    moreover from le K len have "bytes ! K \<le> bytes ! max_element bytes" by simp
    ultimately show False by simp
  qed
  have "chooseNode nd env nextFt bytes ft_bytes = Inr (int K)"
  proof (cases "adjacent_find_not_equal bytes")
    case True
    from chooseNode_not_all_equal [OF ne True len] ft kK show ?thesis by simp
  next
    case False
    have "clusterSize env = 1"
    proof (rule ccontr)
      assume "clusterSize env \<noteq> 1"
      with K have "(if K = 0 then 1 else 0) < clusterSize env \<and> (if K = 0 then 1 else 0) \<noteq> K"
        by auto
      then obtain j :: nat where j: "j < clusterSize env" "j \<noteq> K"
        by blast
      with uniq have "bytes ! j < bytes ! K" by simp
      moreover from j K len have "j < length bytes" "K < length bytes" by simp_all
      with all_equal_iff [THEN iffD1, OF False] have "bytes ! j = bytes ! K" by blast
      ultimately show False by simp
    qed
    with rr K have "nextFt = K" by simp
    with chooseNode_all_equal [OF ne False] show ?thesis by simp
  qed
  with acc show ?thesis by (simp add: getScheduledNode_def)
qed

text \<open>
  C3, as the code has it. For a task that can be offloaded, on a cluster with at least
  one node, with the first-touch bytes not exceeding the tuning multiple of the
  greatest count: when all nodes have the same count, \<^verbatim>\<open>getScheduledNode\<close> returns the
  node of \<^verbatim>\<open>getNextFtNode()\<close>; when the counts are not all the same, also when two or
  more nodes tie for the greatest, it returns the lowest-indexed node that has the
  greatest count.
\<close>

theorem getScheduledNode_ties:
  assumes acc: "processAllDataAccesses nd env accesses (replicate (clusterSize env) 0, 0)
                  = Some (Inr (True, bytes, ft_bytes))"
    and ne: "0 < clusterSize env"
    and ft: "\<not> ftExceeds env ft_bytes (Max (set bytes))"
  shows "((\<forall>i < clusterSize env. \<forall>j < clusterSize env. bytes ! i = bytes ! j) \<longrightarrow>
            getScheduledNode nd env nextFt accesses = Some (Inr (int nextFt)))
       \<and> ((\<exists>i < clusterSize env. \<exists>j < clusterSize env. bytes ! i \<noteq> bytes ! j) \<longrightarrow>
            (\<exists>k < clusterSize env.
               getScheduledNode nd env nextFt accesses = Some (Inr (int k))
               \<and> bytes ! k = Max (set bytes) \<and> (\<forall>j < k. bytes ! j < bytes ! k)))"
proof -
  from processAllDataAccesses_length [OF acc] have len: "length bytes = clusterSize env"
    by simp
  with ne have nonempty: "bytes \<noteq> []" by auto
  show ?thesis
  proof (intro conjI impI)
    assume eqs: "\<forall>i < clusterSize env. \<forall>j < clusterSize env. bytes ! i = bytes ! j"
    have "\<forall>i < length bytes. \<forall>j < length bytes. bytes ! i = bytes ! j"
      unfolding len by (rule eqs)
    then have "\<not> adjacent_find_not_equal bytes" by (rule all_equal_iff [THEN iffD2])
    from chooseNode_all_equal [OF nonempty this] acc
    show "getScheduledNode nd env nextFt accesses = Some (Inr (int nextFt))"
      by (simp add: getScheduledNode_def)
  next
    assume "\<exists>i < clusterSize env. \<exists>j < clusterSize env. bytes ! i \<noteq> bytes ! j"
    then have "\<not> (\<forall>i < length bytes. \<forall>j < length bytes. bytes ! i = bytes ! j)"
      unfolding len by blast
    with all_equal_iff [of bytes] have ne2: "adjacent_find_not_equal bytes" by blast
    from ft have "\<not> ftExceeds env ft_bytes (bytes ! max_element bytes)"
      by (simp add: max_element_Max [OF nonempty])
    from chooseNode_not_all_equal [OF nonempty ne2 len this] acc
    have "getScheduledNode nd env nextFt accesses = Some (Inr (int (max_element bytes)))"
      by (simp add: getScheduledNode_def)
    with max_element_props [OF nonempty] max_element_Max [OF nonempty] len
    show "\<exists>k < clusterSize env.
               getScheduledNode nd env nextFt accesses = Some (Inr (int k))
               \<and> bytes ! k = Max (set bytes) \<and> (\<forall>j < k. bytes ! j < bytes ! k)"
      by auto
  qed
qed

lemma ex_counts:
  "processAllDataAccesses False ex_sched_env ex_accesses
     (replicate (clusterSize ex_sched_env) 0, 0)
     = Some (Inr (True, [64, 8192, 100], 4096))"
  by code_simp

lemma ex_tie_counts:
  "processAllDataAccesses False ex_sched_env ex_tie_accesses
     (replicate (clusterSize ex_sched_env) 0, 0)
     = Some (Inr (True, [5, 5, 0], 0))"
  by code_simp

lemma ex_equal_counts:
  "processAllDataAccesses False ex_sched_env ex_equal_accesses
     (replicate (clusterSize ex_sched_env) 0, 0)
     = Some (Inr (True, [5, 5, 5], 0))"
  by code_simp

lemma ex_clusterSize: "clusterSize ex_sched_env = 3"
  by (simp add: ex_sched_env_def)

lemma less_3_cases: "(j :: nat) < 3 \<Longrightarrow> j = 0 \<or> j = 1 \<or> j = 2"
  by arith

lemma chooseNode_unique_maximum_example:
  "getScheduledNode False ex_sched_env 2 ex_accesses = Some (Inr 1)"
proof -
  have K: "(1 :: nat) < clusterSize ex_sched_env" by (simp add: ex_clusterSize)
  have uniq: "\<forall>j < clusterSize ex_sched_env.
      j \<noteq> 1 \<longrightarrow> ([64, 8192, 100] :: size_t list) ! j < [64, 8192, 100] ! 1"
    unfolding ex_clusterSize using less_3_cases by fastforce
  have ft: "\<not> ftExceeds ex_sched_env 4096 (([64, 8192, 100] :: size_t list) ! 1)"
    by (simp add: ex_sched_env_def)
  have rr: "(2 :: nat) < clusterSize ex_sched_env" by (simp add: ex_clusterSize)
  from chooseNode_unique_maximum [OF ex_counts K uniq ft rr]
  show ?thesis by simp
qed

theorem getScheduledNode_ties_witness:
  "getScheduledNode False ex_sched_env 2 ex_equal_accesses = Some (Inr 2)
   \<and> getScheduledNode False ex_sched_env 2 ex_tie_accesses = Some (Inr 0)"
proof
  have pos: "0 < clusterSize ex_sched_env" by (simp add: ex_clusterSize)
  have ft: "\<not> ftExceeds ex_sched_env 0 (Max (set ([5, 5, 5] :: size_t list)))"
    by (simp add: ex_sched_env_def)
  have eq: "\<forall>i < clusterSize ex_sched_env. \<forall>j < clusterSize ex_sched_env.
      ([5, 5, 5] :: size_t list) ! i = [5, 5, 5] ! j"
    unfolding ex_clusterSize
  proof (intro allI impI)
    fix i j :: nat
    assume "i < 3" "j < 3"
    from less_3_cases [OF this(1)] less_3_cases [OF this(2)]
    show "([5, 5, 5] :: size_t list) ! i = [5, 5, 5] ! j" by auto
  qed
  from getScheduledNode_ties [OF ex_equal_counts pos ft, of 2, THEN conjunct1, THEN mp, OF eq]
  show "getScheduledNode False ex_sched_env 2 ex_equal_accesses = Some (Inr 2)"
    by simp
next
  have pos: "0 < clusterSize ex_sched_env" by (simp add: ex_clusterSize)
  have ft: "\<not> ftExceeds ex_sched_env 0 (Max (set ([5, 5, 0] :: size_t list)))"
    by (simp add: ex_sched_env_def)
  have ne: "\<exists>i < clusterSize ex_sched_env. \<exists>j < clusterSize ex_sched_env.
      ([5, 5, 0] :: size_t list) ! i \<noteq> [5, 5, 0] ! j"
    unfolding ex_clusterSize by (rule exI [of _ 0], simp, rule exI [of _ 2], simp)
  from getScheduledNode_ties [OF ex_tie_counts pos ft, of 2, THEN conjunct2, THEN mp, OF ne]
  obtain k where k: "k < clusterSize ex_sched_env"
    "getScheduledNode False ex_sched_env 2 ex_tie_accesses = Some (Inr (int k))"
    "\<forall>j < k. ([5, 5, 0] :: size_t list) ! j < [5, 5, 0] ! k"
    by blast
  have "k = 0"
  proof (rule ccontr)
    assume "k \<noteq> 0"
    then have "0 < k" by simp
    from k(3) [rule_format, OF this]
    have "([5, 5, 0] :: size_t list) ! 0 < [5, 5, 0] ! k" .
    moreover from k(1) have "k = 0 \<or> k = 1 \<or> k = 2"
      unfolding ex_clusterSize by (rule less_3_cases)
    ultimately show False using \<open>k \<noteq> 0\<close> by auto
  qed
  with k(2) show "getScheduledNode False ex_sched_env 2 ex_tie_accesses = Some (Inr 0)"
    by simp
qed

text \<open>
  C3 as stated fails: for the task with 5 bytes on node 0, 5 bytes on node 1 and none on
  node 2, nodes 0 and 1 tie for the greatest count and no byte awaits its first touch;
  the function returns node 0, the lowest-indexed of the two, whatever node
  \<^verbatim>\<open>getNextFtNode()\<close> would give.
\<close>

theorem getScheduledNode_partial_tie_counterexample:
  "processAllDataAccesses False ex_sched_env ex_tie_accesses
     (replicate (clusterSize ex_sched_env) 0, 0) = Some (Inr (True, [5, 5, 0], 0))
   \<and> \<not> ftExceeds ex_sched_env 0 5
   \<and> getScheduledNode False ex_sched_env 1 ex_tie_accesses \<noteq> Some (Inr (int 1))
   \<and> getScheduledNode False ex_sched_env 1 ex_tie_accesses = Some (Inr 0)
   \<and> getScheduledNode False ex_sched_env 2 ex_tie_accesses = Some (Inr 0)"
proof -
  have a: "getScheduledNode False ex_sched_env 1 ex_tie_accesses = Some (Inr 0)"
    by code_simp
  have b: "getScheduledNode False ex_sched_env 2 ex_tie_accesses = Some (Inr 0)"
    by code_simp
  have c: "\<not> ftExceeds ex_sched_env 0 5" by (simp add: ex_sched_env_def)
  from a b c ex_tie_counts show ?thesis by simp
qed

lemma filter_less_upt: "m \<le> n \<Longrightarrow> filter (\<lambda>i. i < m) [0 ..< n] = [0 ..< m]"
proof (induction n)
  case 0
  then show ?case by simp
next
  case (Suc n)
  show ?case
  proof (cases "m = Suc n")
    case True
    then have "filter (\<lambda>i. i < m) [0 ..< n] = [0 ..< n]" by (auto intro: filter_True)
    with True show ?thesis by simp
  next
    case False
    with Suc.prems have "m \<le> n" by simp
    with Suc.IH show ?thesis by simp
  qed
qed

lemma count_below:
  assumes "\<forall>i < n. P i = (i < m)" and "m \<le> n"
  shows "length (filter P [0 ..< n]) = m"
proof -
  have "filter P [0 ..< n] = filter (\<lambda>i. i < m) [0 ..< n]"
    using assms(1) by (intro filter_cong) auto
  with filter_less_upt [OF assms(2)] show ?thesis by simp
qed

lemma count_not_below:
  assumes "\<forall>i < n. P i = (\<not> i < m)" and "m \<le> n"
  shows "length (filter P [0 ..< n]) = n - m"
proof -
  have "filter (\<lambda>i. \<not> P i) [0 ..< n] = filter (\<lambda>i. i < m) [0 ..< n]"
    using assms(1) by (intro filter_cong) auto
  with filter_less_upt [OF assms(2)] have "length (filter (\<lambda>i. \<not> P i) [0 ..< n]) = m"
    by simp
  with sum_length_filter_compl [of P "[0 ..< n]"] show ?thesis by simp
qed

lemma ex_unaligned_address:
  assumes "i < 4096"
  shows "((0x101800 :: 64 word) + of_nat i < 0x102000) = (i < 2048)"
proof -
  from assms have "unat (of_nat i :: 64 word) = i" by (simp add: unat_of_nat)
  moreover from assms this have "unat ((0x101800 :: 64 word) + of_nat i) = 0x101800 + i"
    by (simp add: unat_word_ariths)
  ultimately show ?thesis by (simp add: word_less_nat_alt)
qed

lemma ex_unaligned_homed:
  "spec_homedBytes ex_sched_env \<lparr> startAddress = 0x101800, regionLength = 0x1000 \<rparr>
     (\<lambda>home. home = int 1) = 2048"
  "spec_homedBytes ex_sched_env \<lparr> startAddress = 0x101800, regionLength = 0x1000 \<rparr>
     (\<lambda>home. home = int 0) = 0"
  "spec_homedBytes ex_sched_env \<lparr> startAddress = 0x101800, regionLength = 0x1000 \<rparr>
     (\<lambda>home. home = int 2) = 0"
  "spec_homedBytes ex_sched_env \<lparr> startAddress = 0x101800, regionLength = 0x1000 \<rparr>
     (\<lambda>home. home < 0) = 2048"
proof -
  have one: "length (filter (\<lambda>i. (if (0x101800 :: 64 word) + of_nat i < 0x102000 then 1 else - 1) = (1 :: int))
       [0 ..< 4096]) = 2048"
    by (rule count_below) (auto simp: ex_unaligned_address)
  have neg: "length (filter (\<lambda>i. (if (0x101800 :: 64 word) + of_nat i < 0x102000 then 1 else - 1) < (0 :: int))
       [0 ..< 4096]) = 4096 - 2048"
    by (rule count_not_below) (auto simp: ex_unaligned_address)
  show "spec_homedBytes ex_sched_env \<lparr> startAddress = 0x101800, regionLength = 0x1000 \<rparr>
     (\<lambda>home. home = int 1) = 2048"
    using one by (simp add: spec_homedBytes_def ex_sched_env_def)
  show "spec_homedBytes ex_sched_env \<lparr> startAddress = 0x101800, regionLength = 0x1000 \<rparr>
     (\<lambda>home. home = int 0) = 0"
    by (simp add: spec_homedBytes_def ex_sched_env_def)
  show "spec_homedBytes ex_sched_env \<lparr> startAddress = 0x101800, regionLength = 0x1000 \<rparr>
     (\<lambda>home. home = int 2) = 0"
    by (simp add: spec_homedBytes_def ex_sched_env_def)
  show "spec_homedBytes ex_sched_env \<lparr> startAddress = 0x101800, regionLength = 0x1000 \<rparr>
     (\<lambda>home. home < 0) = 2048"
    using neg by (simp add: spec_homedBytes_def ex_sched_env_def)
qed

lemma ex_unaligned_counts:
  "processAllDataAccesses False ex_sched_env ex_unaligned_accesses
     (replicate (clusterSize ex_sched_env) 0, 0)
     = Some (Inr (True, [64, 4096, 2304], 0))"
  by code_simp

lemma ex_unaligned_node:
  "getScheduledNode False ex_sched_env 0 ex_unaligned_accesses = Some (Inr 1)"
  by code_simp

lemma ex_unaligned_spec:
  "spec_touchedBytes ex_sched_env ex_unaligned_accesses 0 = 64"
  "spec_touchedBytes ex_sched_env ex_unaligned_accesses 1 = 2048"
  "spec_touchedBytes ex_sched_env ex_unaligned_accesses 2 = 2304"
  "spec_firstTouchBytes ex_sched_env ex_unaligned_accesses = 2048"
  using ex_unaligned_homed
  by (simp_all add: spec_touchedBytes_def spec_firstTouchBytes_def spec_touchedAccess_def
      spec_firstTouchAccess_def spec_touchedRegion_def spec_firstTouchRegion_def
      spec_accessLocation_def ex_unaligned_accesses_def ex_sched_env_def ex_directory_def
      ex_node0_def ex_node2_def intersect_def getEndAddress_def Let_def)

text \<open>
  For the task of \<open>ex_accesses\<close>, whose DSM region starts and ends on block boundaries,
  the counts byte by byte are the counts that the function accumulates (\<open>ex_counts\<close>).
\<close>

lemma ex_aligned_address:
  assumes "i < 12288"
  shows "((0x100000 :: 64 word) + of_nat i < 0x102000) = (i < 8192)"
proof -
  from assms have "unat (of_nat i :: 64 word) = i" by (simp add: unat_of_nat)
  moreover from assms this have "unat ((0x100000 :: 64 word) + of_nat i) = 0x100000 + i"
    by (simp add: unat_word_ariths)
  ultimately show ?thesis by (simp add: word_less_nat_alt)
qed

lemma ex_aligned_homed:
  "spec_homedBytes ex_sched_env \<lparr> startAddress = 0x100000, regionLength = 0x3000 \<rparr>
     (\<lambda>home. home = int 1) = 8192"
  "spec_homedBytes ex_sched_env \<lparr> startAddress = 0x100000, regionLength = 0x3000 \<rparr>
     (\<lambda>home. home = int 0) = 0"
  "spec_homedBytes ex_sched_env \<lparr> startAddress = 0x100000, regionLength = 0x3000 \<rparr>
     (\<lambda>home. home = int 2) = 0"
  "spec_homedBytes ex_sched_env \<lparr> startAddress = 0x100000, regionLength = 0x3000 \<rparr>
     (\<lambda>home. home < 0) = 4096"
proof -
  have one: "length (filter (\<lambda>i. (if (0x100000 :: 64 word) + of_nat i < 0x102000 then 1 else - 1) = (1 :: int))
       [0 ..< 12288]) = 8192"
    by (rule count_below) (auto simp: ex_aligned_address)
  have neg: "length (filter (\<lambda>i. (if (0x100000 :: 64 word) + of_nat i < 0x102000 then 1 else - 1) < (0 :: int))
       [0 ..< 12288]) = 12288 - 8192"
    by (rule count_not_below) (auto simp: ex_aligned_address)
  show "spec_homedBytes ex_sched_env \<lparr> startAddress = 0x100000, regionLength = 0x3000 \<rparr>
     (\<lambda>home. home = int 1) = 8192"
    using one by (simp add: spec_homedBytes_def ex_sched_env_def)
  show "spec_homedBytes ex_sched_env \<lparr> startAddress = 0x100000, regionLength = 0x3000 \<rparr>
     (\<lambda>home. home = int 0) = 0"
    by (simp add: spec_homedBytes_def ex_sched_env_def)
  show "spec_homedBytes ex_sched_env \<lparr> startAddress = 0x100000, regionLength = 0x3000 \<rparr>
     (\<lambda>home. home = int 2) = 0"
    by (simp add: spec_homedBytes_def ex_sched_env_def)
  show "spec_homedBytes ex_sched_env \<lparr> startAddress = 0x100000, regionLength = 0x3000 \<rparr>
     (\<lambda>home. home < 0) = 4096"
    using neg by (simp add: spec_homedBytes_def ex_sched_env_def)
qed

lemma ex_aligned_agrees:
  "spec_touchedBytes ex_sched_env ex_accesses 0 = 64"
  "spec_touchedBytes ex_sched_env ex_accesses 1 = 8192"
  "spec_touchedBytes ex_sched_env ex_accesses 2 = 100"
  "spec_firstTouchBytes ex_sched_env ex_accesses = 4096"
  using ex_aligned_homed
  by (simp_all add: spec_touchedBytes_def spec_firstTouchBytes_def spec_touchedAccess_def
      spec_firstTouchAccess_def spec_touchedRegion_def spec_firstTouchRegion_def
      spec_accessLocation_def ex_accesses_def ex_sched_env_def ex_directory_def
      ex_node0_def ex_node2_def intersect_def getEndAddress_def Let_def)

text \<open>
  C2 on the code. For the task of \<open>ex_unaligned_accesses\<close>, counted byte by byte with
  the directory and the home-node function, node 0 has 64 bytes, node 1 has 2048 and
  node 2 has 2304, and 2048 bytes await their first touch: node 2 has the only maximum
  and the deficit does not exceed it (the tuning parameter is 1). The function walks
  the DSM region in strides of a block from the region's start and gives each stride
  whole to the home of its first address: it counts 4096 bytes for node 1 and none to be
  first touched, and returns node 1.
\<close>

theorem getScheduledNode_unaligned_DSM_access:
  "spec_touchedBytes ex_sched_env ex_unaligned_accesses 0 = 64
   \<and> spec_touchedBytes ex_sched_env ex_unaligned_accesses 1 = 2048
   \<and> spec_touchedBytes ex_sched_env ex_unaligned_accesses 2 = 2304
   \<and> spec_firstTouchBytes ex_sched_env ex_unaligned_accesses = 2048
   \<and> \<not> ftExceeds ex_sched_env 2048 2304
   \<and> processAllDataAccesses False ex_sched_env ex_unaligned_accesses
         (replicate (clusterSize ex_sched_env) 0, 0)
       = Some (Inr (True, [64, 4096, 2304], 0))
   \<and> getScheduledNode False ex_sched_env 0 ex_unaligned_accesses = Some (Inr 1)
   \<and> getScheduledNode False ex_sched_env 0 ex_unaligned_accesses \<noteq> Some (Inr 2)"
proof -
  have "\<not> ftExceeds ex_sched_env 2048 2304" by (simp add: ex_sched_env_def)
  with ex_unaligned_spec ex_unaligned_counts ex_unaligned_node show ?thesis by simp
qed

end
